theory Spec2Isabelle
  imports Main "HOL-Library.Word" "HOL-Library.Sublist"
begin

unbundle bit_operations_syntax

section \<open>The setup command of piv-agent (cmd/piv-agent/setup.go)\<close>

text \<open>
  The setup command provisions a PIV security key: it validates the PIN/PUK, guards
  against overwriting a provisioned device, rotates the management key, PIN and PUK, and
  configures one or three slots. Everything it does beyond computing is a call to the
  outside world: the terminal, the clock, the random source and the device. The model
  threads a trace of these calls through every function, in the order the code makes
  them, each with the Go \<open>error\<close> value it returned. The outside world is an oracle
  \<open>env\<close>: what the \<open>n\<close>-th interaction answers, given its arguments. Since the
  program is deterministic, every behaviour of a real device, terminal and clock is the
  behaviour of some oracle, so a theorem for all oracles is a theorem for all devices.
\<close>

subsection \<open>Data of the libraries the command uses\<close>

type_synonym u64 = "64 word"
type_synonym byte = "8 word"

text \<open>Go error values of the libraries: a sentinel, an opaque error, or one wrapping
  another (\<open>%w\<close>). \<open>errors_Is\<close> is \<open>errors.Is\<close>: it follows the chain of wrapped
  errors.\<close>

datatype goerr =
    ErrNotFound
  | ErrSyntax
  | ErrRange
  | ErrOther string
  | ErrWrap string goerr

fun errors_Is :: "goerr \<Rightarrow> goerr \<Rightarrow> bool" where
  "errors_Is (ErrWrap m e) target = (ErrWrap m e = target \<or> errors_Is e target)"
| "errors_Is e target = (e = target)"

text \<open>\<open>piv.Slot\<close>, \<open>piv.TouchPolicy\<close>, \<open>piv.PINPolicy\<close>, \<open>piv.Algorithm\<close> and
  \<open>piv.Key\<close> of the piv-go library.\<close>

datatype Slot = SlotAuthentication | SlotSignature | SlotCardAuthentication | SlotKeyManagement

datatype TouchPolicy = TouchPolicyNever | TouchPolicyAlways | TouchPolicyCached

datatype PINPolicy = PINPolicyNever | PINPolicyOnce | PINPolicyAlways

datatype Algorithm = AlgorithmEC256 | AlgorithmEC384 | AlgorithmEd25519
  | AlgorithmRSA1024 | AlgorithmRSA2048

record Key =
  Algorithm :: Algorithm
  PINPolicy :: PINPolicy
  TouchPolicy :: TouchPolicy

type_synonym mgmtkey = "byte list"  \<comment> \<open>\<open>[24]byte\<close>\<close>

record Metadata =
  ManagementKey :: "mgmtkey option"

text \<open>The library's factory defaults: \<open>piv.DefaultManagementKey\<close>, \<open>piv.DefaultPIN\<close>,
  \<open>piv.DefaultPUK\<close>.\<close>

definition DefaultManagementKey :: mgmtkey where
  "DefaultManagementKey = concat (replicate 3 [1, 2, 3, 4, 5, 6, 7, 8])"

definition DefaultPIN :: string where
  "DefaultPIN = ''123456''"

definition DefaultPUK :: string where
  "DefaultPUK = ''12345678''"

text \<open>Keys, times and certificates. A public key, an instant and a device handle are
  opaque values; of \<open>x509.Certificate\<close> only the fields the command sets are kept.
  \<open>x509.KeyUsage\<close> is a bit set in an \<open>int\<close>, its flags \<open>1 << iota\<close> in the order of
  crypto/x509.\<close>

type_synonym PublicKey = nat
type_synonym time = nat
type_synonym yubikey = nat

record ecdsa_PrivateKey =
  Public :: PublicKey
  D :: nat

record pkix_Name =
  CommonName :: string
  Organization :: "string list"
  OrganizationalUnit :: "string list"

type_synonym KeyUsage = int

definition KeyUsageDigitalSignature :: KeyUsage where "KeyUsageDigitalSignature = push_bit 0 1"
definition KeyUsageKeyAgreement :: KeyUsage where "KeyUsageKeyAgreement = push_bit 4 1"


record x509_Certificate =
  Subject :: pkix_Name
  NotBefore :: time
  NotAfter :: time
  SerialNumber :: "nat option"
  KeyUsage :: KeyUsage
  PublicKey :: "PublicKey option"

text \<open>Go's zero values: the fields a composite literal leaves out.\<close>

definition zero_Name :: pkix_Name where
  "zero_Name = \<lparr>CommonName = [], Organization = [], OrganizationalUnit = []\<rparr>"

definition zero_Certificate :: x509_Certificate where
  "zero_Certificate = \<lparr>Subject = zero_Name, NotBefore = 0, NotAfter = 0,
     SerialNumber = None, KeyUsage = 0, PublicKey = None\<rparr>"

subsection \<open>The trace of calls and the oracle\<close>

text \<open>The calls, by the Go call each one stands for:
  \<^item> \<open>ZapNewDevelopment\<close>, \<open>LogSync\<close>: \<open>zap.NewDevelopment()\<close> and the deferred
    \<open>log.Sync()\<close>;
  \<^item> \<open>Print s\<close>, \<open>Println\<close>, \<open>Printf f args\<close>: \<open>fmt.Print(s)\<close>, \<open>fmt.Println()\<close>
    and \<open>fmt.Printf(f, args...)\<close>;
  \<^item> \<open>ReadPassword\<close>: \<open>terminal.ReadPassword\<close> on standard input;
  \<^item> \<open>GetSecurityKey name\<close>: \<open>getSecurityKey(name)\<close>, which opens the device;
  \<^item> \<open>Certificate\<close>, \<open>Reset\<close>, \<open>SetManagementKey\<close>, \<open>SetMetadata\<close>, \<open>SetPIN\<close>,
    \<open>SetPUK\<close>, \<open>GenerateKey\<close>, \<open>SetCertificate\<close>: the methods of \<open>piv.YubiKey\<close> of
    these names, on the handle given first, with their arguments;
  \<^item> \<open>RandRead n\<close>: \<open>crypto/rand.Read\<close> into \<open>n\<close> bytes;
  \<^item> \<open>RandInt bound\<close>: \<open>crypto/rand.Int(rand.Reader, bound)\<close>;
  \<^item> \<open>EcdsaGenerateKey\<close>: \<open>ecdsa.GenerateKey(elliptic.P256(), rand.Reader)\<close>;
  \<^item> \<open>TimeNow\<close>: \<open>time.Now()\<close>;
  \<^item> \<open>CreateCertificate template parent pub priv\<close>:
    \<open>x509.CreateCertificate(rand.Reader, template, parent, pub, priv)\<close>.\<close>

datatype call =
    ZapNewDevelopment
  | LogSync
  | Print string
  | Println
  | Printf string "string list"
  | ReadPassword
  | GetSecurityKey string
  | Certificate yubikey Slot
  | Reset yubikey
  | RandRead nat
  | SetManagementKey yubikey mgmtkey mgmtkey
  | SetMetadata yubikey mgmtkey Metadata
  | SetPIN yubikey string string
  | SetPUK yubikey string string
  | GenerateKey yubikey mgmtkey Slot Key
  | EcdsaGenerateKey
  | RandInt nat
  | TimeNow
  | CreateCertificate x509_Certificate x509_Certificate PublicKey ecdsa_PrivateKey
  | SetCertificate yubikey mgmtkey Slot x509_Certificate

type_synonym event = "call \<times> goerr option"
type_synonym trace = "event list"

text \<open>The oracle. A field that takes a \<open>nat\<close> first is an interaction: the number is
  how many calls came before it. The other fields are pure library functions
  (\<open>Time.AddDate\<close>, \<open>x509.ParseCertificate\<close>, \<open>ssh.NewPublicKey\<close>,
  \<open>ssh.MarshalAuthorizedKey\<close>) and the package variable \<open>version\<close>, which is set in
  another file.\<close>

record env =
  version :: string
  zap_NewDevelopment :: "nat \<Rightarrow> goerr option"
  terminal_ReadPassword :: "nat \<Rightarrow> goerr + string"
  getSecurityKey :: "nat \<Rightarrow> string \<Rightarrow> goerr + yubikey"
  k_Certificate :: "nat \<Rightarrow> yubikey \<Rightarrow> Slot \<Rightarrow> goerr + x509_Certificate"
  k_Reset :: "nat \<Rightarrow> yubikey \<Rightarrow> goerr + unit"
  rand_Read :: "nat \<Rightarrow> nat \<Rightarrow> goerr + (nat \<Rightarrow> byte)"
  k_SetManagementKey :: "nat \<Rightarrow> yubikey \<Rightarrow> mgmtkey \<Rightarrow> mgmtkey \<Rightarrow> goerr + unit"
  k_SetMetadata :: "nat \<Rightarrow> yubikey \<Rightarrow> mgmtkey \<Rightarrow> Metadata \<Rightarrow> goerr + unit"
  k_SetPIN :: "nat \<Rightarrow> yubikey \<Rightarrow> string \<Rightarrow> string \<Rightarrow> goerr + unit"
  k_SetPUK :: "nat \<Rightarrow> yubikey \<Rightarrow> string \<Rightarrow> string \<Rightarrow> goerr + unit"
  k_GenerateKey :: "nat \<Rightarrow> yubikey \<Rightarrow> mgmtkey \<Rightarrow> Slot \<Rightarrow> Key \<Rightarrow> goerr + PublicKey"
  ecdsa_GenerateKey :: "nat \<Rightarrow> goerr + ecdsa_PrivateKey"
  rand_Int :: "nat \<Rightarrow> nat \<Rightarrow> goerr + nat"
  time_Now :: "nat \<Rightarrow> time"
  time_AddDate :: "time \<Rightarrow> int \<Rightarrow> int \<Rightarrow> int \<Rightarrow> time"
  x509_CreateCertificate :: "nat \<Rightarrow> x509_Certificate \<Rightarrow> x509_Certificate \<Rightarrow> PublicKey
     \<Rightarrow> ecdsa_PrivateKey \<Rightarrow> goerr + byte list"
  x509_ParseCertificate :: "byte list \<Rightarrow> goerr + x509_Certificate"
  k_SetCertificate :: "nat \<Rightarrow> yubikey \<Rightarrow> mgmtkey \<Rightarrow> Slot \<Rightarrow> x509_Certificate \<Rightarrow> goerr + unit"
  ssh_NewPublicKey :: "PublicKey \<Rightarrow> goerr + nat"
  ssh_MarshalAuthorizedKey :: "nat \<Rightarrow> string"

definition errOf :: "goerr + 'a \<Rightarrow> goerr option" where
  "errOf r = (case r of Inl e \<Rightarrow> Some e | Inr _ \<Rightarrow> None)"

text \<open>One interaction: the call and the error it returned go to the end of the trace.\<close>

definition perform :: "call \<Rightarrow> goerr + 'a \<Rightarrow> trace \<Rightarrow> (goerr + 'a) \<times> trace" where
  "perform c r t = (r, t @ [(c, errOf r)])"

text \<open>A call that cannot fail, or whose results the code drops (\<open>fmt.Print\<close>).\<close>

definition emit :: "call \<Rightarrow> trace \<Rightarrow> trace" where
  "emit c t = t @ [(c, None)]"

subsection \<open>strconv\<close>

text \<open>\<open>strconv.ParseUint(s, 10, 64)\<close>: the library's loop over the bytes of \<open>s\<close>, at
  base 10 and bit size 64. A byte that is no decimal digit is a syntax error (a letter
  is a digit of value at least 10, which base 10 refuses; a sign or an underscore is no
  digit at all), and so is the empty string. \<open>n\<close> is the \<open>uint64\<close> accumulator:
  \<open>n >= cutoff\<close> means that \<open>n * 10\<close> overflows, \<open>n1 < n\<close> that adding the digit
  wrapped around.\<close>

definition cutoff :: u64 where
  "cutoff = (- 1) div 10 + 1"

fun ParseUint_loop :: "u64 \<Rightarrow> string \<Rightarrow> goerr + u64" where
  "ParseUint_loop n [] = Inr n"
| "ParseUint_loop n (c # cs) =
     (if \<not> (of_char CHR ''0'' \<le> (of_char c :: nat) \<and> (of_char c :: nat) \<le> of_char CHR ''9'')
      then Inl ErrSyntax
      else let d = (of_char c - of_char CHR ''0'' :: nat) in
        if n \<ge> cutoff then Inl ErrRange
        else let n' = n * 10; n1 = n' + of_nat d in
          if n1 < n' then Inl ErrRange
          else ParseUint_loop n1 cs)"

definition ParseUint :: "string \<Rightarrow> goerr + u64" where
  "ParseUint s = (if s = [] then Inl ErrSyntax else ParseUint_loop 0 s)"





text \<open>\<open>strconv.FormatUint(i, 10)\<close>: the decimal digits of \<open>i\<close>, most significant
  first, with no leading zero.\<close>

fun formatBits :: "nat \<Rightarrow> string" where
  "formatBits n = (if n < 10 then [''0123456789'' ! n]
     else formatBits (n div 10) @ [''0123456789'' ! (n mod 10)])"

declare formatBits.simps [simp del]

definition FormatUint :: "u64 \<Rightarrow> string" where
  "FormatUint i = formatBits (unat i)"

subsection \<open>The command and its tables\<close>

record SetupCmd =
  Card :: string
  ResetSecurityKey :: bool
  PIN :: u64
  AllTouchPolicies :: bool

record slotSpec =
  slot :: Slot
  touchPolicy :: TouchPolicy

definition allKeySpec :: "slotSpec list" where
  "allKeySpec = [
     \<lparr>slot = SlotAuthentication, touchPolicy = TouchPolicyCached\<rparr>,
     \<lparr>slot = SlotSignature, touchPolicy = TouchPolicyAlways\<rparr>,
     \<lparr>slot = SlotCardAuthentication, touchPolicy = TouchPolicyNever\<rparr>]"

definition touchStringMap :: "TouchPolicy \<rightharpoonup> string" where
  "touchStringMap = [
     TouchPolicyNever \<mapsto> ''never'',
     TouchPolicyAlways \<mapsto> ''always'',
     TouchPolicyCached \<mapsto> ''cached'']"

text \<open>Reading a Go map at a key it does not hold gives the zero value.\<close>

definition touchString :: "TouchPolicy \<Rightarrow> string" where
  "touchString p = (case touchStringMap p of None \<Rightarrow> [] | Some s \<Rightarrow> s)"

text \<open>The errors of the command, one constructor for each \<open>fmt.Errorf\<close> of the file,
  with the error it wraps:
  \<^item> \<open>CouldntInitLogger\<close>: "couldn't init logger: %w"
  \<^item> \<open>CouldntReadPIN\<close>: "couldn't read PIN/PUK: %w"
  \<^item> \<open>InvalidCharacters\<close>: "invalid characters: %w"
  \<^item> \<open>EntriesNotEqual\<close>: "PIN/PUK entries not equal"
  \<^item> \<open>InvalidPIN\<close>: "invalid PIN, must be 6-8 digits"
  \<^item> \<open>CouldntGetSecurityKey\<close>: "couldn't get security key: %w"
  \<^item> \<open>AlreadySetUp\<close>: "security key already set up and --reset-security-key not specified"
  \<^item> \<open>CouldntResetSecurityKey\<close>: "couldn't reset security key: %w"
  \<^item> \<open>CouldntGetCertificate\<close>: "couldn't get certificate: %w"
  \<^item> \<open>CouldntGetRandomBytes\<close>: "couldn't get random bytes: %w"
  \<^item> \<open>CouldntSetManagementKey\<close>: "couldn't set management key: %w"
  \<^item> \<open>CouldntStoreManagementKey\<close>: "couldn't store management key: %w"
  \<^item> \<open>CouldntSetPIN\<close>: "couldn't set PIN: %w"
  \<^item> \<open>CouldntSetPUK\<close>: "couldn't set PUK: %w"
  \<^item> \<open>CouldntConfigureSlot\<close>: "couldn't configure slot %v: %w"
  \<^item> \<open>CouldntGenerateKey\<close>: "couldn't generate key: %w"
  \<^item> \<open>CouldntGenerateParentKey\<close>: "couldn't generate parent key: %w"
  \<^item> \<open>CouldntGenerateSerial\<close>: "couldn't generate serial: %w"
  \<^item> \<open>CouldntCreateCertificate\<close>: "couldn't create certificate: %w"
  \<^item> \<open>CouldntParseCertificate\<close>: "couldn't parse certificate: %w"
  \<^item> \<open>CouldntSetCertificate\<close>: "couldn't set certificate: %w"
  \<^item> \<open>CouldntGetSSHPublicKey\<close>: "couldn't get SSH public key: %w"
\<close>

datatype error =
    CouldntInitLogger goerr
  | CouldntReadPIN goerr
  | InvalidCharacters goerr
  | EntriesNotEqual
  | InvalidPIN
  | CouldntGetSecurityKey goerr
  | AlreadySetUp
  | CouldntResetSecurityKey goerr
  | CouldntGetCertificate goerr
  | CouldntGetRandomBytes goerr
  | CouldntSetManagementKey goerr
  | CouldntStoreManagementKey goerr
  | CouldntSetPIN goerr
  | CouldntSetPUK goerr
  | CouldntConfigureSlot Slot error
  | CouldntGenerateKey goerr
  | CouldntGenerateParentKey goerr
  | CouldntGenerateSerial goerr
  | CouldntCreateCertificate goerr
  | CouldntParseCertificate goerr
  | CouldntSetCertificate goerr
  | CouldntGetSSHPublicKey goerr

subsection \<open>interactivePIN\<close>

definition interactivePIN :: "env \<Rightarrow> trace \<Rightarrow> (error + u64) \<times> trace" where
  "interactivePIN e t0 =
     (let t1 = emit (Print ''Enter a new PIN/PUK (6-8 digits): '') t0;
          (r, t2) = perform ReadPassword (terminal_ReadPassword e (length t1)) t1;
          t3 = emit Println t2
      in case r of
           Inl err \<Rightarrow> (Inl (CouldntReadPIN err), t3)
         | Inr rawPIN \<Rightarrow>
            (case ParseUint rawPIN of
               Inl err \<Rightarrow> (Inl (InvalidCharacters err), t3)
             | Inr pin \<Rightarrow>
                (let t4 = emit (Print ''Repeat PIN/PUK: '') t3;
                     (r', t5) = perform ReadPassword (terminal_ReadPassword e (length t4)) t4;
                     t6 = emit Println t5
                 in case r' of
                      Inl err \<Rightarrow> (Inl (CouldntReadPIN err), t6)
                    | Inr repeat \<Rightarrow>
                       if repeat \<noteq> rawPIN then (Inl EntriesNotEqual, t6)
                       else (Inr pin, t6))))"

subsection \<open>configureSlot\<close>

text \<open>The format of the first output line: the key emoji (U+1F511, four bytes of
  UTF-8), the text, the verb for the label and a newline.\<close>

definition generatedFormat :: string where
  "generatedFormat = [char_of (0xF0 :: nat), char_of (0x9F :: nat), char_of (0x94 :: nat),
     char_of (0x91 :: nat)] @ '' Generated SSH key, touch policy: %s'' @ [char_of (10 :: nat)]"

text \<open>The composite literal of the template evaluates its fields in the order they are
  written: \<open>NotAfter\<close> reads the clock first, \<open>NotBefore\<close> reads it again.\<close>

definition configureSlot ::
  "env \<Rightarrow> yubikey \<Rightarrow> mgmtkey \<Rightarrow> Slot \<Rightarrow> TouchPolicy \<Rightarrow> trace \<Rightarrow> error option \<times> trace" where
  "configureSlot e k mk sl tp t0 =
     (let key = \<lparr>Algorithm = AlgorithmEC256, PINPolicy = PINPolicyOnce, TouchPolicy = tp\<rparr> in
      case perform (GenerateKey k mk sl key) (k_GenerateKey e (length t0) k mk sl key) t0 of
        (Inl err, t1) \<Rightarrow> (Some (CouldntGenerateKey err), t1)
      | (Inr pub, t1) \<Rightarrow>
     (case perform EcdsaGenerateKey (ecdsa_GenerateKey e (length t1)) t1 of
        (Inl err, t2) \<Rightarrow> (Some (CouldntGenerateParentKey err), t2)
      | (Inr priv, t2) \<Rightarrow>
     (let parent = zero_Certificate\<lparr>
            Subject := zero_Name\<lparr>Organization := [''piv-agent''],
                                 OrganizationalUnit := [version e]\<rparr>,
            PublicKey := Some (Public priv)\<rparr>;
          bound = push_bit 128 (1 :: nat) in
      case perform (RandInt bound) (rand_Int e (length t2) bound) t2 of
        (Inl err, t3) \<Rightarrow> (Some (CouldntGenerateSerial err), t3)
      | (Inr serial, t3) \<Rightarrow>
     (let now1 = time_Now e (length t3);
          t4 = emit TimeNow t3;
          now2 = time_Now e (length t4);
          t5 = emit TimeNow t4;
          template = zero_Certificate\<lparr>
            Subject := zero_Name\<lparr>CommonName := ''SSH key''\<rparr>,
            NotAfter := time_AddDate e now1 64 0 0,
            NotBefore := now2,
            SerialNumber := Some serial,
            KeyUsage := KeyUsageKeyAgreement OR KeyUsageDigitalSignature\<rparr> in
      case perform (CreateCertificate template parent pub priv)
             (x509_CreateCertificate e (length t5) template parent pub priv) t5 of
        (Inl err, t6) \<Rightarrow> (Some (CouldntCreateCertificate err), t6)
      | (Inr certBytes, t6) \<Rightarrow>
     (case x509_ParseCertificate e certBytes of
        Inl err \<Rightarrow> (Some (CouldntParseCertificate err), t6)
      | Inr cert \<Rightarrow>
     (case perform (SetCertificate k mk sl cert) (k_SetCertificate e (length t6) k mk sl cert) t6 of
        (Inl err, t7) \<Rightarrow> (Some (CouldntSetCertificate err), t7)
      | (Inr _, t7) \<Rightarrow>
     (case ssh_NewPublicKey e pub of
        Inl err \<Rightarrow> (Some (CouldntGetSSHPublicKey err), t7)
      | Inr sshKey \<Rightarrow>
     (let t8 = emit (Printf generatedFormat [touchString tp]) t7;
          t9 = emit (Printf (ssh_MarshalAuthorizedKey e sshKey) []) t8
      in (None, t9)))))))))"

subsection \<open>The method setup\<close>

text \<open>The loop over \<open>keySpec\<close> at the end of \<open>setup\<close>: the first slot that fails ends
  it.\<close>

fun configureSlots ::
  "env \<Rightarrow> yubikey \<Rightarrow> mgmtkey \<Rightarrow> slotSpec list \<Rightarrow> trace \<Rightarrow> error option \<times> trace" where
  "configureSlots e k mk [] t = (None, t)"
| "configureSlots e k mk (ss # rest) t =
     (case configureSlot e k mk (slot ss) (touchPolicy ss) t of
        (Some err, t') \<Rightarrow> (Some (CouldntConfigureSlot (slot ss) err), t')
      | (None, t') \<Rightarrow> configureSlots e k mk rest t')"

definition keySpecOf :: "SetupCmd \<Rightarrow> slotSpec list" where
  "keySpecOf cmd =
     (if AllTouchPolicies cmd then allKeySpec
      else [\<lparr>slot = SlotAuthentication, touchPolicy = TouchPolicyCached\<rparr>])"

text \<open>The method \<open>setup\<close> of \<open>SetupCmd\<close>. The \<open>if\<close> on the certificate of the authentication slot returns
  early or falls through to the rotation of the secrets; \<open>guard\<close> is the early return,
  if any. \<open>rand.Read\<close> fills the 24 bytes of \<open>mk\<close>.\<close>

definition SetupCmd_setup :: "env \<Rightarrow> SetupCmd \<Rightarrow> yubikey \<Rightarrow> trace \<Rightarrow> error option \<times> trace" where
  "SetupCmd_setup e cmd k t0 =
     (let (guard, tg) =
        (case perform (Certificate k SlotAuthentication)
                (k_Certificate e (length t0) k SlotAuthentication) t0 of
           (Inr _, t1) \<Rightarrow>
             if \<not> ResetSecurityKey cmd then (Some AlreadySetUp, t1)
             else (case perform (Reset k) (k_Reset e (length t1) k) t1 of
                     (Inl err, t2) \<Rightarrow> (Some (CouldntResetSecurityKey err), t2)
                   | (Inr _, t2) \<Rightarrow> (None, t2))
         | (Inl err, t1) \<Rightarrow>
             if \<not> errors_Is err ErrNotFound then (Some (CouldntGetCertificate err), t1)
             else (None, t1)) in
      case guard of
        Some err \<Rightarrow> (Some err, tg)
      | None \<Rightarrow>
     (case perform (RandRead 24) (rand_Read e (length tg) 24) tg of
        (Inl err, t1) \<Rightarrow> (Some (CouldntGetRandomBytes err), t1)
      | (Inr bytes, t1) \<Rightarrow>
     (let mk = map bytes [0..<24] in
      case perform (SetManagementKey k DefaultManagementKey mk)
             (k_SetManagementKey e (length t1) k DefaultManagementKey mk) t1 of
        (Inl err, t2) \<Rightarrow> (Some (CouldntSetManagementKey err), t2)
      | (Inr _, t2) \<Rightarrow>
     (let md = \<lparr>ManagementKey = Some mk\<rparr> in
      case perform (SetMetadata k mk md) (k_SetMetadata e (length t2) k mk md) t2 of
        (Inl err, t3) \<Rightarrow> (Some (CouldntStoreManagementKey err), t3)
      | (Inr _, t3) \<Rightarrow>
     (let pin = FormatUint (PIN cmd) in
      case perform (SetPIN k DefaultPIN pin) (k_SetPIN e (length t3) k DefaultPIN pin) t3 of
        (Inl err, t4) \<Rightarrow> (Some (CouldntSetPIN err), t4)
      | (Inr _, t4) \<Rightarrow>
     (case perform (SetPUK k DefaultPUK pin) (k_SetPUK e (length t4) k DefaultPUK pin) t4 of
        (Inl err, t5) \<Rightarrow> (Some (CouldntSetPUK err), t5)
      | (Inr _, t5) \<Rightarrow> configureSlots e k mk (keySpecOf cmd) t5))))))"

subsection \<open>Run\<close>

text \<open>\<open>defer log.Sync()\<close> runs on every return after the logger exists.\<close>

definition Run :: "env \<Rightarrow> SetupCmd \<Rightarrow> trace \<Rightarrow> error option \<times> trace" where
  "Run e cmd t0 =
     (case perform ZapNewDevelopment
             (case zap_NewDevelopment e (length t0) of Some err \<Rightarrow> Inl err | None \<Rightarrow> Inr ()) t0 of
        (Inl err, t1) \<Rightarrow> (Some (CouldntInitLogger err), t1)
      | (Inr _, t1) \<Rightarrow>
     (let (r, t') =
        (case (if PIN cmd = 0
               then (case interactivePIN e t1 of
                       (Inl err, t2) \<Rightarrow> (Inl err, t2)
                     | (Inr pin, t2) \<Rightarrow> (Inr (cmd\<lparr>PIN := pin\<rparr>), t2))
               else (Inr cmd, t1)) of
           (Inl err, t2) \<Rightarrow> (Some err, t2)
         | (Inr cmd', t2) \<Rightarrow>
            if PIN cmd' < 100000 \<or> PIN cmd' > 99999999 then (Some InvalidPIN, t2)
            else (case perform (GetSecurityKey (Card cmd'))
                         (getSecurityKey e (length t2) (Card cmd')) t2 of
                    (Inl err, t3) \<Rightarrow> (Some (CouldntGetSecurityKey err), t3)
                  | (Inr k, t3) \<Rightarrow> SetupCmd_setup e cmd' k t3))
      in (r, emit LogSync t')))"

subsection \<open>A simulated world\<close>

text \<open>An oracle to run the command on: a device that is provisioned or blank, the two
  lines typed at the terminal, and the set of interactions that fail. The clock ticks
  once per interaction; \<open>AddDate\<close>, the certificate codec and the key encoding are
  stand-ins for the libraries.\<close>

definition failing :: "(nat \<Rightarrow> bool) \<Rightarrow> nat \<Rightarrow> 'a \<Rightarrow> goerr + 'a" where
  "failing bad n x = (if bad n then Inl (ErrOther ''injected'') else Inr x)"

definition simEnv :: "bool \<Rightarrow> string \<Rightarrow> string \<Rightarrow> (nat \<Rightarrow> bool) \<Rightarrow> env" where
  "simEnv provisioned entry1 entry2 bad = \<lparr>
     version = ''v0.0.0'',
     zap_NewDevelopment = (\<lambda>n. if bad n then Some (ErrOther ''injected'') else None),
     terminal_ReadPassword = (\<lambda>n. failing bad n (if n < 3 then entry1 else entry2)),
     getSecurityKey = (\<lambda>n card. failing bad n 1),
     k_Certificate = (\<lambda>n k s.
        if bad n then Inl (ErrOther ''injected'')
        else if provisioned then Inr zero_Certificate
        else Inl (ErrWrap ''command failed'' ErrNotFound)),
     k_Reset = (\<lambda>n k. failing bad n ()),
     rand_Read = (\<lambda>n len. failing bad n (\<lambda>i. of_nat (i + 1))),
     k_SetManagementKey = (\<lambda>n k old new. failing bad n ()),
     k_SetMetadata = (\<lambda>n k mk md. failing bad n ()),
     k_SetPIN = (\<lambda>n k old new. failing bad n ()),
     k_SetPUK = (\<lambda>n k old new. failing bad n ()),
     k_GenerateKey = (\<lambda>n k mk s key. failing bad n (100 + n)),
     ecdsa_GenerateKey = (\<lambda>n. failing bad n \<lparr>Public = 7, D = 9\<rparr>),
     rand_Int = (\<lambda>n bound. failing bad n (42 mod bound)),
     time_Now = (\<lambda>n. 1000 + n),
     time_AddDate = (\<lambda>t y m d. t + nat y * 31556952 + nat m * 2629746 + nat d * 86400),
     x509_CreateCertificate = (\<lambda>n template parent pub priv. failing bad n [of_nat pub]),
     x509_ParseCertificate = (\<lambda>bs. Inr (zero_Certificate\<lparr>PublicKey := Some (length bs)\<rparr>)),
     k_SetCertificate = (\<lambda>n k mk s cert. failing bad n ()),
     ssh_NewPublicKey = (\<lambda>pub. Inr pub),
     ssh_MarshalAuthorizedKey = (\<lambda>key. ''ecdsa-sha2-nistp256 KEY'' @ formatBits key @ [char_of (10 :: nat)])\<rparr>"

definition never :: "nat \<Rightarrow> bool" where
  "never n = False"

subsection \<open>Observations on traces\<close>

text \<open>The calls that reach the security key, and among them the ones that change it.\<close>

fun isDevice :: "call \<Rightarrow> bool" where
  "isDevice (GetSecurityKey name) = True"
| "isDevice (Certificate k s) = True"
| "isDevice (Reset k) = True"
| "isDevice (SetManagementKey k old new) = True"
| "isDevice (SetMetadata k mk md) = True"
| "isDevice (SetPIN k old new) = True"
| "isDevice (SetPUK k old new) = True"
| "isDevice (GenerateKey k mk s key) = True"
| "isDevice (SetCertificate k mk s cert) = True"
| "isDevice c = False"

fun isMutation :: "call \<Rightarrow> bool" where
  "isMutation (Reset k) = True"
| "isMutation (SetManagementKey k old new) = True"
| "isMutation (SetMetadata k mk md) = True"
| "isMutation (SetPIN k old new) = True"
| "isMutation (SetPUK k old new) = True"
| "isMutation (GenerateKey k mk s key) = True"
| "isMutation (SetCertificate k mk s cert) = True"
| "isMutation c = False"

definition deviceCalls :: "trace \<Rightarrow> call list" where
  "deviceCalls t = filter isDevice (map fst t)"

text \<open>The calls of the rotation of the secrets, and the sequence they are made in.\<close>

fun isRotation :: "call \<Rightarrow> bool" where
  "isRotation (RandRead n) = True"
| "isRotation (SetManagementKey k old new) = True"
| "isRotation (SetMetadata k mk md) = True"
| "isRotation (SetPIN k old new) = True"
| "isRotation (SetPUK k old new) = True"
| "isRotation c = False"

definition rotationCalls :: "yubikey \<Rightarrow> mgmtkey \<Rightarrow> string \<Rightarrow> call list" where
  "rotationCalls k mk pin = [
     RandRead 24,
     SetManagementKey k DefaultManagementKey mk,
     SetMetadata k mk \<lparr>ManagementKey = Some mk\<rparr>,
     SetPIN k DefaultPIN pin,
     SetPUK k DefaultPUK pin]"

text \<open>The calls \<open>configureSlot\<close> makes, the slot a device call is about, the slots a
  trace asked the device to generate a key in (with the touch policy), the slots whose
  certificate the device stored, and the lines printed.\<close>

fun isSlotCall :: "call \<Rightarrow> bool" where
  "isSlotCall (GenerateKey k mk s key) = True"
| "isSlotCall EcdsaGenerateKey = True"
| "isSlotCall (RandInt n) = True"
| "isSlotCall TimeNow = True"
| "isSlotCall (CreateCertificate template parent pub priv) = True"
| "isSlotCall (SetCertificate k mk s cert) = True"
| "isSlotCall (Printf f args) = True"
| "isSlotCall c = False"

fun slotOf :: "call \<Rightarrow> Slot option" where
  "slotOf (Certificate k s) = Some s"
| "slotOf (GenerateKey k mk s key) = Some s"
| "slotOf (SetCertificate k mk s cert) = Some s"
| "slotOf c = None"

fun generatedIn :: "event \<Rightarrow> (Slot \<times> TouchPolicy) list" where
  "generatedIn (GenerateKey k mk s key, r) = [(s, TouchPolicy key)]"
| "generatedIn ev = []"

definition generated :: "trace \<Rightarrow> (Slot \<times> TouchPolicy) list" where
  "generated t = concat (map generatedIn t)"

fun storedIn :: "event \<Rightarrow> Slot list" where
  "storedIn (SetCertificate k mk s cert, None) = [s]"
| "storedIn ev = []"

definition stored :: "trace \<Rightarrow> Slot list" where
  "stored t = concat (map storedIn t)"

fun isPrintf :: "call \<Rightarrow> bool" where
  "isPrintf (Printf f args) = True"
| "isPrintf c = False"

definition printed :: "trace \<Rightarrow> call list" where
  "printed t = filter isPrintf (map fst t)"

text \<open>The two lines \<open>configureSlot\<close> prints for a touch policy and an SSH key.\<close>

definition slotOutput :: "env \<Rightarrow> TouchPolicy \<Rightarrow> nat \<Rightarrow> event list" where
  "slotOutput e tp sshKey = [
     (Printf generatedFormat [touchString tp], None),
     (Printf (ssh_MarshalAuthorizedKey e sshKey) [], None)]"

text \<open>The error taxonomy of the specification, over the errors of the code, which are
  formatted messages with no type of their own: a malformed or out-of-range secret is a
  validation error, an error of a call to the device a hardware error, an error of a
  cryptographic operation on the host a crypto error. An error that wraps the error of a
  slot has the kind of that error. The logger and the terminal are outside the
  taxonomy.\<close>

datatype errKind = ValidationError | AlreadyProvisionedError | HardwareError | CryptoError
  | OtherError

fun errClass :: "error \<Rightarrow> errKind" where
  "errClass (InvalidCharacters err) = ValidationError"
| "errClass EntriesNotEqual = ValidationError"
| "errClass InvalidPIN = ValidationError"
| "errClass AlreadySetUp = AlreadyProvisionedError"
| "errClass (CouldntGetSecurityKey err) = HardwareError"
| "errClass (CouldntResetSecurityKey err) = HardwareError"
| "errClass (CouldntGetCertificate err) = HardwareError"
| "errClass (CouldntSetManagementKey err) = HardwareError"
| "errClass (CouldntStoreManagementKey err) = HardwareError"
| "errClass (CouldntSetPIN err) = HardwareError"
| "errClass (CouldntSetPUK err) = HardwareError"
| "errClass (CouldntGenerateKey err) = HardwareError"
| "errClass (CouldntSetCertificate err) = HardwareError"
| "errClass (CouldntGetRandomBytes err) = CryptoError"
| "errClass (CouldntGenerateParentKey err) = CryptoError"
| "errClass (CouldntGenerateSerial err) = CryptoError"
| "errClass (CouldntCreateCertificate err) = CryptoError"
| "errClass (CouldntParseCertificate err) = CryptoError"
| "errClass (CouldntGetSSHPublicKey err) = CryptoError"
| "errClass (CouldntConfigureSlot s err) = errClass err"
| "errClass (CouldntInitLogger err) = OtherError"
| "errClass (CouldntReadPIN err) = OtherError"

text \<open>The certificate templates handed to \<open>x509.CreateCertificate\<close>, and the labels of
  the first output lines.\<close>

fun templateIn :: "event \<Rightarrow> x509_Certificate list" where
  "templateIn (CreateCertificate template parent pub priv, r) = [template]"
| "templateIn ev = []"

definition templates :: "trace \<Rightarrow> x509_Certificate list" where
  "templates t = concat (map templateIn t)"

fun labelIn :: "event \<Rightarrow> string list" where
  "labelIn (Printf f [l], r) = (if f = generatedFormat then [l] else [])"
| "labelIn ev = []"

definition labels :: "trace \<Rightarrow> string list" where
  "labels t = concat (map labelIn t)"

definition specOf :: "slotSpec \<Rightarrow> Slot \<times> TouchPolicy" where
  "specOf ss = (slot ss, touchPolicy ss)"

subsection \<open>The sections of the method setup\<close>

text \<open>The guard of \<open>setup\<close> and what follows it, named for the proofs. Lemma
  \<open>setup_sections\<close> shows that \<open>SetupCmd_setup\<close> is the one after the other.\<close>

definition guardSection :: "env \<Rightarrow> SetupCmd \<Rightarrow> yubikey \<Rightarrow> trace \<Rightarrow> error option \<times> trace" where
  "guardSection e cmd k t0 =
     (case perform (Certificate k SlotAuthentication)
             (k_Certificate e (length t0) k SlotAuthentication) t0 of
        (Inr _, t1) \<Rightarrow>
          if \<not> ResetSecurityKey cmd then (Some AlreadySetUp, t1)
          else (case perform (Reset k) (k_Reset e (length t1) k) t1 of
                  (Inl err, t2) \<Rightarrow> (Some (CouldntResetSecurityKey err), t2)
                | (Inr _, t2) \<Rightarrow> (None, t2))
      | (Inl err, t1) \<Rightarrow>
          if \<not> errors_Is err ErrNotFound then (Some (CouldntGetCertificate err), t1)
          else (None, t1))"

definition rotateSection :: "env \<Rightarrow> SetupCmd \<Rightarrow> yubikey \<Rightarrow> trace \<Rightarrow> error option \<times> trace" where
  "rotateSection e cmd k tg =
     (case perform (RandRead 24) (rand_Read e (length tg) 24) tg of
        (Inl err, t1) \<Rightarrow> (Some (CouldntGetRandomBytes err), t1)
      | (Inr bytes, t1) \<Rightarrow>
     (let mk = map bytes [0..<24] in
      case perform (SetManagementKey k DefaultManagementKey mk)
             (k_SetManagementKey e (length t1) k DefaultManagementKey mk) t1 of
        (Inl err, t2) \<Rightarrow> (Some (CouldntSetManagementKey err), t2)
      | (Inr _, t2) \<Rightarrow>
     (let md = \<lparr>ManagementKey = Some mk\<rparr> in
      case perform (SetMetadata k mk md) (k_SetMetadata e (length t2) k mk md) t2 of
        (Inl err, t3) \<Rightarrow> (Some (CouldntStoreManagementKey err), t3)
      | (Inr _, t3) \<Rightarrow>
     (let pin = FormatUint (PIN cmd) in
      case perform (SetPIN k DefaultPIN pin) (k_SetPIN e (length t3) k DefaultPIN pin) t3 of
        (Inl err, t4) \<Rightarrow> (Some (CouldntSetPIN err), t4)
      | (Inr _, t4) \<Rightarrow>
     (case perform (SetPUK k DefaultPUK pin) (k_SetPUK e (length t4) k DefaultPUK pin) t4 of
        (Inl err, t5) \<Rightarrow> (Some (CouldntSetPUK err), t5)
      | (Inr _, t5) \<Rightarrow> configureSlots e k mk (keySpecOf cmd) t5)))))"

text \<open>The guard lets \<open>setup\<close> go on in two ways: the query found no certificate, or
  it found one and the reset that was asked for went through.\<close>

definition guardPassed :: "env \<Rightarrow> SetupCmd \<Rightarrow> yubikey \<Rightarrow> trace \<Rightarrow> event list \<Rightarrow> bool" where
  "guardPassed e cmd k t g =
     (case k_Certificate e (length t) k SlotAuthentication of
        Inr c \<Rightarrow> ResetSecurityKey cmd \<and> k_Reset e (Suc (length t)) k = Inr ()
           \<and> g = [(Certificate k SlotAuthentication, None), (Reset k, None)]
      | Inl err \<Rightarrow> errors_Is err ErrNotFound
           \<and> g = [(Certificate k SlotAuthentication, Some err)])"

text \<open>The error \<open>setup\<close> returns when step \<open>i\<close> of the rotation fails.\<close>

definition rotationError :: "nat \<Rightarrow> goerr \<Rightarrow> error" where
  "rotationError i err = ([CouldntGetRandomBytes, CouldntSetManagementKey,
     CouldntStoreManagementKey, CouldntSetPIN, CouldntSetPUK] ! i) err"

subsection \<open>Commands and values to run the model on\<close>

definition simKey :: mgmtkey where
  "simKey = map (\<lambda>i. of_nat (i + 1)) [0..<24]"

definition cmdAll :: SetupCmd where
  "cmdAll = \<lparr>Card = [], ResetSecurityKey = False, PIN = 87654321, AllTouchPolicies = True\<rparr>"

definition cmdSingle :: SetupCmd where
  "cmdSingle = \<lparr>Card = [], ResetSecurityKey = False, PIN = 123456, AllTouchPolicies = False\<rparr>"

definition cmdReset :: SetupCmd where
  "cmdReset = \<lparr>Card = [], ResetSecurityKey = True, PIN = 654321, AllTouchPolicies = True\<rparr>"

definition cmdPrompt :: SetupCmd where
  "cmdPrompt = \<lparr>Card = [], ResetSecurityKey = False, PIN = 0, AllTouchPolicies = False\<rparr>"

definition cmdShort :: SetupCmd where
  "cmdShort = \<lparr>Card = [], ResetSecurityKey = False, PIN = 12345, AllTouchPolicies = True\<rparr>"




text \<open>An interaction that fails: the one with that number, and no other.\<close>

definition failAt :: "nat \<Rightarrow> nat \<Rightarrow> bool" where
  "failAt i n = (n = i)"

text \<open>The calls \<open>setup\<close> can make on the key \<open>k\<close> with the PIN string \<open>pin\<close>, with
  what is fixed about their arguments.\<close>

fun setupCall :: "yubikey \<Rightarrow> string \<Rightarrow> call \<Rightarrow> bool" where
  "setupCall k pin (Certificate k' s) = (k' = k \<and> s = SlotAuthentication)"
| "setupCall k pin (Reset k') = (k' = k)"
| "setupCall k pin (RandRead n) = (n = 24)"
| "setupCall k pin (SetManagementKey k' old new) =
     (k' = k \<and> old = DefaultManagementKey \<and> length new = 24)"
| "setupCall k pin (SetMetadata k' mk md) = (k' = k \<and> md = \<lparr>ManagementKey = Some mk\<rparr>)"
| "setupCall k pin (SetPIN k' old new) = (k' = k \<and> old = DefaultPIN \<and> new = pin)"
| "setupCall k pin (SetPUK k' old new) = (k' = k \<and> old = DefaultPUK \<and> new = pin)"
| "setupCall k pin (GenerateKey k' mk s key) =
     (k' = k \<and> length mk = 24 \<and> Algorithm key = AlgorithmEC256 \<and> PINPolicy key = PINPolicyOnce
      \<and> (s, TouchPolicy key) \<in> set (map specOf allKeySpec))"
| "setupCall k pin (SetCertificate k' mk s cert) =
     (k' = k \<and> length mk = 24 \<and> s \<in> set (map slot allKeySpec))"
| "setupCall k pin EcdsaGenerateKey = True"
| "setupCall k pin (RandInt n) = (n = 2 ^ 128)"
| "setupCall k pin TimeNow = True"
| "setupCall k pin (CreateCertificate template parent pub priv) = True"
| "setupCall k pin (Printf f args) = True"
| "setupCall k pin c = False"

text \<open>The calls to the terminal.\<close>

fun isTerminal :: "call \<Rightarrow> bool" where
  "isTerminal (Print s) = True"
| "isTerminal Println = True"
| "isTerminal ReadPassword = True"
| "isTerminal c = False"

text \<open>The field \<open>PIN\<close> as the flag parser leaves it: the struct tag gives the flag no
  default, so without the flag the field keeps Go's zero value.\<close>

definition flagPIN :: "u64 option \<Rightarrow> u64" where
  "flagPIN given = (case given of None \<Rightarrow> 0 | Some v \<Rightarrow> v)"

text \<open>The two prompts of \<open>interactivePIN\<close>.\<close>

definition promptEnter :: string where
  "promptEnter = ''Enter a new PIN/PUK (6-8 digits): ''"

definition promptRepeat :: string where
  "promptRepeat = ''Repeat PIN/PUK: ''"

text \<open>What \<open>Run\<close> has in hand when it reaches the range check, after the logger exists:
  the PIN of the flag and no call, or the PIN that \<open>interactivePIN\<close> returned and the
  calls it made.\<close>

definition collected :: "env \<Rightarrow> SetupCmd \<Rightarrow> u64 \<Rightarrow> event list \<Rightarrow> bool" where
  "collected e cmd pin pre =
     (if PIN cmd = 0
      then interactivePIN e [(ZapNewDevelopment, None)] = (Inr pin, (ZapNewDevelopment, None) # pre)
      else pin = PIN cmd \<and> pre = [])"

text \<open>The calls of an \<open>interactivePIN\<close> that read both entries.\<close>

definition promptEvents :: "event list" where
  "promptEvents = [(Print promptEnter, None), (ReadPassword, None), (Println, None),
     (Print promptRepeat, None), (ReadPassword, None), (Println, None)]"

section \<open>Properties\<close>

subsection \<open>ParseUint\<close>









subsection \<open>One slot\<close>

lemmas run_defs = perform_def emit_def errOf_def Let_def
lemmas obs_defs = printed_def generated_def stored_def templates_def labels_def deviceCalls_def

lemma configureSlot_NoneE:
  assumes "configureSlot e k mk sl tp t = (None, t')"
  obtains pub priv template parent certBytes cert sshKey where
    "k_GenerateKey e (length t) k mk sl
       \<lparr>Algorithm = AlgorithmEC256, PINPolicy = PINPolicyOnce, TouchPolicy = tp\<rparr> = Inr pub"
    "x509_ParseCertificate e certBytes = Inr cert" "ssh_NewPublicKey e pub = Inr sshKey"
    "t' = t @ [(GenerateKey k mk sl \<lparr>Algorithm = AlgorithmEC256, PINPolicy = PINPolicyOnce, TouchPolicy = tp\<rparr>, None),
              (EcdsaGenerateKey, None), (RandInt (2 ^ 128), None), (TimeNow, None), (TimeNow, None),
              (CreateCertificate template parent pub priv, None),
              (SetCertificate k mk sl cert, None)] @ slotOutput e tp sshKey"
  using assms
  by (auto simp add: configureSlot_def slotOutput_def run_defs split: sum.splits prod.splits)

lemma configureSlot_None:
  assumes "configureSlot e k mk sl tp t = (None, t')"
  shows "\<exists>evs. t' = t @ evs \<and> generated evs = [(sl, tp)] \<and> stored evs = [sl]
    \<and> labels evs = [touchString tp] \<and> length (printed evs) = 2
    \<and> (\<forall>ev \<in> set evs. isSlotCall (fst ev) \<and> slotOf (fst ev) \<in> {None, Some sl} \<and> snd ev = None)"
  using assms
  by (auto simp add: configureSlot_def run_defs obs_defs split: sum.splits prod.splits)

lemma configureSlot_Some:
  assumes "configureSlot e k mk sl tp t = (Some err, t')"
  shows "\<exists>evs. t' = t @ evs \<and> printed evs = [] \<and> labels evs = [] \<and> generated evs = [(sl, tp)]
    \<and> prefix (stored evs) [sl]
    \<and> (\<forall>ev \<in> set evs. isSlotCall (fst ev) \<and> slotOf (fst ev) \<in> {None, Some sl})
    \<and> (\<forall>ev \<in> set (butlast evs). snd ev = None)"
  using assms
  by (auto simp add: configureSlot_def run_defs obs_defs split: sum.splits prod.splits)

lemma configureSlot_key:
  assumes "configureSlot e k mk sl tp t = (r, t')"
    and "(GenerateKey k' mk' sl' key, res) \<in> set (drop (length t) t')"
  shows "Algorithm key = AlgorithmEC256 \<and> PINPolicy key = PINPolicyOnce \<and> TouchPolicy key = tp
    \<and> k' = k \<and> mk' = mk \<and> sl' = sl"
  using assms
  by (auto simp add: configureSlot_def run_defs split: sum.splits prod.splits)



lemma configureSlots_None:
  "configureSlots e k mk specs t = (None, t') \<Longrightarrow>
   \<exists>evs. t' = t @ evs \<and> generated evs = map specOf specs \<and> stored evs = map slot specs
     \<and> labels evs = map (\<lambda>ss. touchString (touchPolicy ss)) specs
     \<and> length (printed evs) = 2 * length specs
     \<and> (\<forall>ev \<in> set evs. isSlotCall (fst ev) \<and> slotOf (fst ev) \<in> insert None (Some ` slot ` set specs) \<and> snd ev = None)"
proof (induction specs arbitrary: t)
  case Nil
  then show ?case by (simp add: obs_defs)
next
  case (Cons ss rest)
  from Cons.prems obtain mid where
    first: "configureSlot e k mk (slot ss) (touchPolicy ss) t = (None, mid)"
    and more: "configureSlots e k mk rest mid = (None, t')"
    by (auto split: prod.splits option.splits)
  from configureSlot_None [OF first] obtain evs1 where
    evs1: "mid = t @ evs1" "generated evs1 = [(slot ss, touchPolicy ss)]" "stored evs1 = [slot ss]"
      "labels evs1 = [touchString (touchPolicy ss)]" "length (printed evs1) = 2"
      "\<forall>ev \<in> set evs1. isSlotCall (fst ev) \<and> slotOf (fst ev) \<in> {None, Some (slot ss)} \<and> snd ev = None"
    by blast
  from Cons.IH [OF more] obtain evs2 where
    evs2: "t' = mid @ evs2" "generated evs2 = map specOf rest" "stored evs2 = map slot rest"
      "labels evs2 = map (\<lambda>ss. touchString (touchPolicy ss)) rest"
      "length (printed evs2) = 2 * length rest"
      "\<forall>ev \<in> set evs2. isSlotCall (fst ev) \<and> slotOf (fst ev) \<in> insert None (Some ` slot ` set rest) \<and> snd ev = None"
    by blast
  show ?case
    using evs1 evs2
    by (intro exI [where x = "evs1 @ evs2"]) (auto simp add: obs_defs specOf_def)
qed

lemma configureSlots_Some:
  "configureSlots e k mk specs t = (Some err, t') \<Longrightarrow>
   \<exists>i err' mid. i < length specs \<and> err = CouldntConfigureSlot (slot (specs ! i)) err'
     \<and> configureSlots e k mk (take i specs) t = (None, mid)
     \<and> configureSlot e k mk (slot (specs ! i)) (touchPolicy (specs ! i)) mid = (Some err', t')"
proof (induction specs arbitrary: t)
  case Nil
  then show ?case by simp
next
  case (Cons ss rest)
  show ?case
  proof (cases "fst (configureSlot e k mk (slot ss) (touchPolicy ss) t)")
    case (Some err')
    with Cons.prems have "err = CouldntConfigureSlot (slot ss) err'"
      "configureSlot e k mk (slot ss) (touchPolicy ss) t = (Some err', t')"
      by (auto split: prod.splits option.splits)
    then show ?thesis
      by (intro exI [where x = 0] exI [where x = err'] exI [where x = t]) simp
  next
    case None
    with Cons.prems obtain mid where
      first: "configureSlot e k mk (slot ss) (touchPolicy ss) t = (None, mid)"
      and more: "configureSlots e k mk rest mid = (Some err, t')"
      by (auto split: prod.splits option.splits)
    from Cons.IH [OF more] obtain i err' mid' where
      "i < length rest" "err = CouldntConfigureSlot (slot (rest ! i)) err'"
      "configureSlots e k mk (take i rest) mid = (None, mid')"
      "configureSlot e k mk (slot (rest ! i)) (touchPolicy (rest ! i)) mid' = (Some err', t')"
      by blast
    with first show ?thesis
      by (intro exI [where x = "Suc i"] exI [where x = err'] exI [where x = mid']) simp
  qed
qed

subsection \<open>The sections of setup\<close>

lemma setup_sections:
  "SetupCmd_setup e cmd k t0 =
     (case guardSection e cmd k t0 of
        (Some err, tg) \<Rightarrow> (Some err, tg)
      | (None, tg) \<Rightarrow> rotateSection e cmd k tg)"
  by (simp add: SetupCmd_setup_def guardSection_def rotateSection_def run_defs
      split: sum.splits prod.splits option.splits)

lemma guardSection_cases:
  assumes "guardSection e cmd k t = (r, tg)"
  obtains
    (already) "ResetSecurityKey cmd = False" "r = Some AlreadySetUp"
      "tg = t @ [(Certificate k SlotAuthentication, None)]"
      "\<exists>c. k_Certificate e (length t) k SlotAuthentication = Inr c"
  | (resetFailed) err where "ResetSecurityKey cmd" "r = Some (CouldntResetSecurityKey err)"
      "tg = t @ [(Certificate k SlotAuthentication, None), (Reset k, Some err)]"
      "\<exists>c. k_Certificate e (length t) k SlotAuthentication = Inr c"
      "k_Reset e (Suc (length t)) k = Inl err"
  | (queryFailed) err where "\<not> errors_Is err ErrNotFound" "r = Some (CouldntGetCertificate err)"
      "tg = t @ [(Certificate k SlotAuthentication, Some err)]"
      "k_Certificate e (length t) k SlotAuthentication = Inl err"
  | (passed) g where "r = None" "tg = t @ g" "guardPassed e cmd k t g"
  using assms
  by (auto simp add: guardSection_def guardPassed_def run_defs
      split: sum.splits prod.splits if_splits)

lemma rotate_step0:
  assumes "rand_Read e (length t) 24 = Inl err"
  shows "rotateSection e cmd k t = (Some (CouldntGetRandomBytes err), t @ [(RandRead 24, Some err)])"
  using assms by (simp add: rotateSection_def run_defs)

lemma rotate_step1:
  assumes "rand_Read e (length t) 24 = Inr bytes"
    and "k_SetManagementKey e (Suc (length t)) k DefaultManagementKey (map bytes [0..<24]) = Inl err"
  shows "rotateSection e cmd k t = (Some (CouldntSetManagementKey err),
     t @ [(RandRead 24, None),
          (SetManagementKey k DefaultManagementKey (map bytes [0..<24]), Some err)])"
  using assms by (simp add: rotateSection_def run_defs)

lemma rotate_step2:
  assumes "rand_Read e (length t) 24 = Inr bytes"
    and "k_SetManagementKey e (Suc (length t)) k DefaultManagementKey (map bytes [0..<24]) = Inr u1"
    and "k_SetMetadata e (Suc (Suc (length t))) k (map bytes [0..<24])
           \<lparr>ManagementKey = Some (map bytes [0..<24])\<rparr> = Inl err"
  shows "rotateSection e cmd k t = (Some (CouldntStoreManagementKey err),
     t @ [(RandRead 24, None),
          (SetManagementKey k DefaultManagementKey (map bytes [0..<24]), None),
          (SetMetadata k (map bytes [0..<24]) \<lparr>ManagementKey = Some (map bytes [0..<24])\<rparr>, Some err)])"
  using assms by (simp add: rotateSection_def run_defs)

lemma rotate_step3:
  assumes "rand_Read e (length t) 24 = Inr bytes"
    and "k_SetManagementKey e (Suc (length t)) k DefaultManagementKey (map bytes [0..<24]) = Inr u1"
    and "k_SetMetadata e (Suc (Suc (length t))) k (map bytes [0..<24])
           \<lparr>ManagementKey = Some (map bytes [0..<24])\<rparr> = Inr u2"
    and "k_SetPIN e (Suc (Suc (Suc (length t)))) k DefaultPIN (FormatUint (PIN cmd)) = Inl err"
  shows "rotateSection e cmd k t = (Some (CouldntSetPIN err),
     t @ [(RandRead 24, None),
          (SetManagementKey k DefaultManagementKey (map bytes [0..<24]), None),
          (SetMetadata k (map bytes [0..<24]) \<lparr>ManagementKey = Some (map bytes [0..<24])\<rparr>, None),
          (SetPIN k DefaultPIN (FormatUint (PIN cmd)), Some err)])"
  using assms by (simp add: rotateSection_def run_defs)

lemma rotate_step4:
  assumes "rand_Read e (length t) 24 = Inr bytes"
    and "k_SetManagementKey e (Suc (length t)) k DefaultManagementKey (map bytes [0..<24]) = Inr u1"
    and "k_SetMetadata e (Suc (Suc (length t))) k (map bytes [0..<24])
           \<lparr>ManagementKey = Some (map bytes [0..<24])\<rparr> = Inr u2"
    and "k_SetPIN e (Suc (Suc (Suc (length t)))) k DefaultPIN (FormatUint (PIN cmd)) = Inr u3"
    and "k_SetPUK e (Suc (Suc (Suc (Suc (length t))))) k DefaultPUK (FormatUint (PIN cmd)) = Inl err"
  shows "rotateSection e cmd k t = (Some (CouldntSetPUK err),
     t @ [(RandRead 24, None),
          (SetManagementKey k DefaultManagementKey (map bytes [0..<24]), None),
          (SetMetadata k (map bytes [0..<24]) \<lparr>ManagementKey = Some (map bytes [0..<24])\<rparr>, None),
          (SetPIN k DefaultPIN (FormatUint (PIN cmd)), None),
          (SetPUK k DefaultPUK (FormatUint (PIN cmd)), Some err)])"
  using assms by (simp add: rotateSection_def run_defs)

lemma rotate_step5:
  assumes "rand_Read e (length t) 24 = Inr bytes"
    and "k_SetManagementKey e (Suc (length t)) k DefaultManagementKey (map bytes [0..<24]) = Inr u1"
    and "k_SetMetadata e (Suc (Suc (length t))) k (map bytes [0..<24])
           \<lparr>ManagementKey = Some (map bytes [0..<24])\<rparr> = Inr u2"
    and "k_SetPIN e (Suc (Suc (Suc (length t)))) k DefaultPIN (FormatUint (PIN cmd)) = Inr u3"
    and "k_SetPUK e (Suc (Suc (Suc (Suc (length t))))) k DefaultPUK (FormatUint (PIN cmd)) = Inr u4"
  shows "rotateSection e cmd k t = configureSlots e k (map bytes [0..<24]) (keySpecOf cmd)
     (t @ map (\<lambda>c. (c, None)) (rotationCalls k (map bytes [0..<24]) (FormatUint (PIN cmd))))"
  using assms by (simp add: rotateSection_def run_defs rotationCalls_def)

lemma rotateSection_cases:
  assumes "rotateSection e cmd k t = (r, t')"
  obtains
    (failed) i err mk where "i < 5" "length mk = 24" "r = Some (rotationError i err)"
      "t' = t @ map (\<lambda>c. (c, None)) (take i (rotationCalls k mk (FormatUint (PIN cmd))))
              @ [(rotationCalls k mk (FormatUint (PIN cmd)) ! i, Some err)]"
      "i = 0 \<or> (\<exists>bytes. rand_Read e (length t) 24 = Inr bytes \<and> mk = map bytes [0..<24])"
  | (rotated) mk where "length mk = 24"
      "configureSlots e k mk (keySpecOf cmd)
         (t @ map (\<lambda>c. (c, None)) (rotationCalls k mk (FormatUint (PIN cmd)))) = (r, t')"
      "\<exists>bytes. rand_Read e (length t) 24 = Inr bytes \<and> mk = map bytes [0..<24]"
proof (cases "rand_Read e (length t) 24")
  case (Inl err)
  from assms rotate_step0 [OF Inl, of cmd k]
  have "r = Some (rotationError 0 err)" "t' = t @ [(RandRead 24, Some err)]"
    by (simp_all add: rotationError_def)
  then show ?thesis
    using failed [of 0 "replicate 24 0" err] by (simp add: rotationCalls_def)
next
  case (Inr bytes)
  define mk where "mk = map bytes [0..<24]"
  have len: "length mk = 24" by (simp add: mk_def)
  note rd = Inr
  have src: "\<exists>bytes. rand_Read e (length t) 24 = Inr bytes \<and> mk = map bytes [0..<24]"
    using rd mk_def by blast
  show ?thesis
  proof (cases "k_SetManagementKey e (Suc (length t)) k DefaultManagementKey (map bytes [0..<24])")
    case (Inl err)
    from assms rotate_step1 [OF rd Inl, of cmd]
    have "r = Some (rotationError 1 err)"
      "t' = t @ [(RandRead 24, None), (SetManagementKey k DefaultManagementKey mk, Some err)]"
      by (simp_all add: rotationError_def mk_def)
    then show ?thesis
      using failed [of 1 mk err] len src by (simp add: rotationCalls_def)
  next
    case mkOk: (Inr u1)
    show ?thesis
    proof (cases "k_SetMetadata e (Suc (Suc (length t))) k (map bytes [0..<24])
        \<lparr>ManagementKey = Some (map bytes [0..<24])\<rparr>")
      case (Inl err)
      from assms rotate_step2 [OF rd mkOk Inl, of cmd]
      have "r = Some (rotationError 2 err)"
        "t' = t @ [(RandRead 24, None), (SetManagementKey k DefaultManagementKey mk, None),
           (SetMetadata k mk \<lparr>ManagementKey = Some mk\<rparr>, Some err)]"
        by (simp_all add: rotationError_def mk_def)
      then show ?thesis
        using failed [of 2 mk err] len src by (simp add: rotationCalls_def numeral_2_eq_2)
    next
      case mdOk: (Inr u2)
      show ?thesis
      proof (cases "k_SetPIN e (Suc (Suc (Suc (length t)))) k DefaultPIN (FormatUint (PIN cmd))")
        case (Inl err)
        from assms rotate_step3 [OF rd mkOk mdOk Inl]
        have "r = Some (rotationError 3 err)"
          "t' = t @ [(RandRead 24, None), (SetManagementKey k DefaultManagementKey mk, None),
             (SetMetadata k mk \<lparr>ManagementKey = Some mk\<rparr>, None),
             (SetPIN k DefaultPIN (FormatUint (PIN cmd)), Some err)]"
          by (simp_all add: rotationError_def mk_def)
        then show ?thesis
          using failed [of 3 mk err] len src by (simp add: rotationCalls_def numeral_3_eq_3)
      next
        case pinOk: (Inr u3)
        show ?thesis
        proof (cases "k_SetPUK e (Suc (Suc (Suc (Suc (length t))))) k DefaultPUK (FormatUint (PIN cmd))")
          case (Inl err)
          from assms rotate_step4 [OF rd mkOk mdOk pinOk Inl]
          have "r = Some (rotationError 4 err)"
            "t' = t @ [(RandRead 24, None), (SetManagementKey k DefaultManagementKey mk, None),
               (SetMetadata k mk \<lparr>ManagementKey = Some mk\<rparr>, None),
               (SetPIN k DefaultPIN (FormatUint (PIN cmd)), None),
               (SetPUK k DefaultPUK (FormatUint (PIN cmd)), Some err)]"
            by (simp_all add: rotationError_def mk_def)
          then show ?thesis
            using failed [of 4 mk err] len src
            by (simp add: rotationCalls_def eval_nat_numeral)
        next
          case pukOk: (Inr u4)
          from assms rotate_step5 [OF rd mkOk mdOk pinOk pukOk]
          have "configureSlots e k mk (keySpecOf cmd)
               (t @ map (\<lambda>c. (c, None)) (rotationCalls k mk (FormatUint (PIN cmd)))) = (r, t')"
            by (simp add: mk_def)
          then show ?thesis using rotated [of mk] len src by simp
        qed
      qed
    qed
  qed
qed

lemma obs_append:
  "generated (a @ b) = generated a @ generated b"
  "stored (a @ b) = stored a @ stored b"
  "printed (a @ b) = printed a @ printed b"
  "labels (a @ b) = labels a @ labels b"
  "templates (a @ b) = templates a @ templates b"
  "deviceCalls (a @ b) = deviceCalls a @ deviceCalls b"
  by (simp_all add: obs_defs)

lemma configureSlots_events:
  assumes "configureSlots e k mk specs t = (r, t')"
  shows "\<exists>evs. t' = t @ evs \<and> (\<forall>ev \<in> set evs. isSlotCall (fst ev))
    \<and> prefix (generated evs) (map specOf specs) \<and> prefix (stored evs) (map slot specs)
    \<and> (r = None \<longrightarrow> generated evs = map specOf specs \<and> stored evs = map slot specs)"
proof (cases r)
  case None
  with assms configureSlots_None [of e k mk specs t t'] show ?thesis by auto
next
  case (Some err)
  with assms obtain i err' mid where i: "i < length specs"
    and before: "configureSlots e k mk (take i specs) t = (None, mid)"
    and failing: "configureSlot e k mk (slot (specs ! i)) (touchPolicy (specs ! i)) mid = (Some err', t')"
    using configureSlots_Some by blast
  from configureSlots_None [OF before] obtain evs1 where
    evs1: "mid = t @ evs1" "generated evs1 = map specOf (take i specs)"
      "stored evs1 = map slot (take i specs)" "\<forall>ev \<in> set evs1. isSlotCall (fst ev)"
    by blast
  from configureSlot_Some [OF failing] obtain evs2 where
    evs2: "t' = mid @ evs2" "generated evs2 = [(slot (specs ! i), touchPolicy (specs ! i))]"
      "prefix (stored evs2) [slot (specs ! i)]" "\<forall>ev \<in> set evs2. isSlotCall (fst ev)"
    by blast
  have tk: "take (Suc i) specs = take i specs @ [specs ! i]"
    using i by (simp add: take_Suc_conv_app_nth)
  have g: "generated (evs1 @ evs2) = map specOf (take (Suc i) specs)"
    using evs1 evs2 by (simp add: tk obs_append specOf_def)
  have "prefix (stored (evs1 @ evs2)) (map slot (take i specs) @ [slot (specs ! i)])"
    unfolding obs_append evs1(3) using evs2(3) by (simp only: same_prefix_prefix)
  then have s: "prefix (stored (evs1 @ evs2)) (map slot (take (Suc i) specs))"
    by (simp add: tk)
  have "prefix (generated (evs1 @ evs2)) (map specOf specs)"
    unfolding g by (simp add: take_is_prefix map_mono_prefix)
  moreover have "prefix (stored (evs1 @ evs2)) (map slot specs)"
    using s by (meson take_is_prefix map_mono_prefix prefix_order.trans)
  ultimately show ?thesis
    using Some evs1 evs2 by (intro exI [where x = "evs1 @ evs2"]) auto
qed

lemma guardPassed_events:
  assumes "guardPassed e cmd k t g"
  shows "generated g = [] \<and> stored g = [] \<and> printed g = []
    \<and> filter (\<lambda>ev. isRotation (fst ev)) g = []
    \<and> (\<exists>r. take 1 g = [(Certificate k SlotAuthentication, r)])"
  using assms
  by (auto simp add: guardPassed_def obs_defs split: sum.splits)

lemma rotation_events:
  "generated (map (\<lambda>c. (c, r)) (take i (rotationCalls k mk pin))) = []"
  "stored (map (\<lambda>c. (c, r)) (take i (rotationCalls k mk pin))) = []"
  "printed (map (\<lambda>c. (c, r)) (take i (rotationCalls k mk pin))) = []"
  "i < 5 \<Longrightarrow> generated [(rotationCalls k mk pin ! i, r')] = []"
  "i < 5 \<Longrightarrow> stored [(rotationCalls k mk pin ! i, r')] = []"
  "i < 5 \<Longrightarrow> printed [(rotationCalls k mk pin ! i, r')] = []"
proof -
  have cases: "i < 5 \<Longrightarrow> i = 0 \<or> i = 1 \<or> i = 2 \<or> i = 3 \<or> i = 4" by arith
  have "\<forall>c \<in> set (rotationCalls k mk pin). generatedIn (c, r) = [] \<and> storedIn (c, r) = [] \<and> \<not> isPrintf c"
    by (simp add: rotationCalls_def)
  then have all: "\<forall>c \<in> set (take i (rotationCalls k mk pin)). generatedIn (c, r) = [] \<and> storedIn (c, r) = [] \<and> \<not> isPrintf c"
    by (meson in_set_takeD)
  show "generated (map (\<lambda>c. (c, r)) (take i (rotationCalls k mk pin))) = []"
    using all by (simp add: generated_def)
  show "stored (map (\<lambda>c. (c, r)) (take i (rotationCalls k mk pin))) = []"
    using all by (simp add: stored_def)
  show "printed (map (\<lambda>c. (c, r)) (take i (rotationCalls k mk pin))) = []"
    using all by (simp add: printed_def filter_empty_conv)
  show "i < 5 \<Longrightarrow> generated [(rotationCalls k mk pin ! i, r')] = []"
    using cases by (auto simp add: generated_def rotationCalls_def)
  show "i < 5 \<Longrightarrow> stored [(rotationCalls k mk pin ! i, r')] = []"
    using cases by (cases r') (auto simp add: stored_def rotationCalls_def)
  show "i < 5 \<Longrightarrow> printed [(rotationCalls k mk pin ! i, r')] = []"
    using cases by (auto simp add: printed_def rotationCalls_def)
qed

text \<open>Either \<open>setup\<close> fails before the loop over the slots, or the loop runs after the
  guard and the five calls of the rotation, and its result is the result of \<open>setup\<close>.\<close>

lemma setup_cases:
  assumes "SetupCmd_setup e cmd k t = (r, t')"
  obtains
    (guardFailed) "guardSection e cmd k t = (r, t')" "r \<noteq> None"
  | (rotationFailed) g i err mk where "guardPassed e cmd k t g" "i < 5" "length mk = 24"
      "r = Some (rotationError i err)"
      "t' = t @ g @ map (\<lambda>c. (c, None)) (take i (rotationCalls k mk (FormatUint (PIN cmd))))
              @ [(rotationCalls k mk (FormatUint (PIN cmd)) ! i, Some err)]"
      "i = 0 \<or> (\<exists>bytes. rand_Read e (length (t @ g)) 24 = Inr bytes \<and> mk = map bytes [0..<24])"
  | (rotated) g mk where "guardPassed e cmd k t g" "length mk = 24"
      "configureSlots e k mk (keySpecOf cmd)
         (t @ g @ map (\<lambda>c. (c, None)) (rotationCalls k mk (FormatUint (PIN cmd)))) = (r, t')"
      "\<exists>bytes. rand_Read e (length (t @ g)) 24 = Inr bytes \<and> mk = map bytes [0..<24]"
proof (cases "guardSection e cmd k t")
  case (Pair gr tg)
  show ?thesis
  proof (cases gr)
    case (Some err)
    with Pair assms have "guardSection e cmd k t = (r, t')" "r \<noteq> None"
      by (auto simp add: setup_sections)
    then show ?thesis by (rule guardFailed)
  next
    case None
    with Pair obtain g where g: "tg = t @ g" "guardPassed e cmd k t g"
      by (auto elim: guardSection_cases)
    from None Pair assms have rot: "rotateSection e cmd k (t @ g) = (r, t')"
      by (simp add: setup_sections g)
    from rot show ?thesis
    proof (cases rule: rotateSection_cases)
      case (failed i err mk)
      then show ?thesis using g by (intro that(2) [of g i mk err]) simp_all
    next
      case (rotated mk)
      then show ?thesis using g by (intro that(3) [of g mk]) simp_all
    qed
  qed
qed

lemmas sim_defs = simEnv_def never_def failing_def simKey_def
  cmdAll_def cmdSingle_def cmdReset_def cmdPrompt_def cmdShort_def

subsection \<open>Claims about one slot\<close>

text \<open>C10: the two output lines of a slot (the line with the icon and the label of the touch
  policy, then the authorized-key encoding of the SSH key) are printed only after the
  device has stored the certificate of that slot. The calls of \<open>configureSlot\<close> split
  into a part that prints nothing and the output. When \<open>configureSlot\<close> succeeds, the
  first part ends with the successful \<open>SetCertificate\<close> on the slot and the output is
  the two lines for the key the device generated in that slot; when it fails, nothing is
  printed at all.\<close>
theorem configureSlot_prints_after_store:
  assumes "configureSlot e k mk sl tp t = (r, t')"
  shows "\<exists>pre out. t' = t @ pre @ out \<and> printed pre = [] \<and>
     (if r = None
      then \<exists>pre' cert pub sshKey.
             pre = pre' @ [(SetCertificate k mk sl cert, None)]
           \<and> k_GenerateKey e (length t) k mk sl
                \<lparr>Algorithm = AlgorithmEC256, PINPolicy = PINPolicyOnce, TouchPolicy = tp\<rparr> = Inr pub
           \<and> ssh_NewPublicKey e pub = Inr sshKey
           \<and> out = slotOutput e tp sshKey
      else out = [])"
proof (cases r)
  case None
  with assms obtain pub priv template parent cert sshKey where
    gen: "k_GenerateKey e (length t) k mk sl
       \<lparr>Algorithm = AlgorithmEC256, PINPolicy = PINPolicyOnce, TouchPolicy = tp\<rparr> = Inr pub"
    and ssh: "ssh_NewPublicKey e pub = Inr sshKey"
    and t': "t' = t @ [(GenerateKey k mk sl \<lparr>Algorithm = AlgorithmEC256, PINPolicy = PINPolicyOnce, TouchPolicy = tp\<rparr>, None),
              (EcdsaGenerateKey, None), (RandInt (2 ^ 128), None), (TimeNow, None), (TimeNow, None),
              (CreateCertificate template parent pub priv, None),
              (SetCertificate k mk sl cert, None)] @ slotOutput e tp sshKey"
    by (auto elim: configureSlot_NoneE)
  show ?thesis
    apply (rule exI [where x = "[(GenerateKey k mk sl \<lparr>Algorithm = AlgorithmEC256, PINPolicy = PINPolicyOnce, TouchPolicy = tp\<rparr>, None),
              (EcdsaGenerateKey, None), (RandInt (2 ^ 128), None), (TimeNow, None), (TimeNow, None),
              (CreateCertificate template parent pub priv, None),
              (SetCertificate k mk sl cert, None)]"])
    apply (rule exI [where x = "slotOutput e tp sshKey"])
    using None t' gen ssh by (auto simp add: printed_def)
next
  case (Some err)
  with assms obtain evs where "t' = t @ evs" "printed evs = []"
    using configureSlot_Some by blast
  then show ?thesis using Some
    by (intro exI [where x = evs] exI [where x = "[]"]) simp
qed

theorem configureSlot_prints_after_store_witness:
  "fst (configureSlot (simEnv False [] [] never) 1 simKey SlotSignature TouchPolicyAlways []) = None
   \<and> (\<exists>pre out. snd (configureSlot (simEnv False [] [] never) 1 simKey SlotSignature TouchPolicyAlways [])
         = [] @ pre @ out \<and> printed pre = []
       \<and> (\<exists>pre' cert. pre = pre' @ [(SetCertificate 1 simKey SlotSignature cert, None)])
       \<and> out = slotOutput (simEnv False [] [] never) TouchPolicyAlways 100)"
proof -
  have ok: "fst (configureSlot (simEnv False [] [] never) 1 simKey SlotSignature TouchPolicyAlways []) = None"
    by (simp add: configureSlot_def run_defs sim_defs)
  have gen: "k_GenerateKey (simEnv False [] [] never) (length ([] :: trace)) 1 simKey SlotSignature
       \<lparr>Algorithm = AlgorithmEC256, PINPolicy = PINPolicyOnce, TouchPolicy = TouchPolicyAlways\<rparr> = Inr 100"
     and ssh: "\<And>pub. ssh_NewPublicKey (simEnv False [] [] never) pub = Inr pub"
    by (simp_all add: sim_defs)
  from configureSlot_prints_after_store [OF surjective_pairing,
      of "simEnv False [] [] never" 1 simKey SlotSignature TouchPolicyAlways "[]"]
  show ?thesis
    unfolding ok using gen ssh by auto
qed





subsection \<open>Claims about setup\<close>

text \<open>C4: the slots \<open>setup\<close> configures. In single-slot mode the table is the
  authentication slot with the touch policy cached, in all-touch-policies mode it is
  authentication/cached, signature/always, card-authentication/never. The slots in which
  \<open>setup\<close> asks the device to generate a key, and the slots whose certificate the device
  stores, always follow the table from its start, in its order; when \<open>setup\<close> succeeds
  they are exactly the table: one slot or three.\<close>
theorem setup_slot_table:
  assumes "SetupCmd_setup e cmd k t = (r, t')"
  shows "\<exists>evs. t' = t @ evs \<and>
     (let table = (if AllTouchPolicies cmd
                   then [(SlotAuthentication, TouchPolicyCached), (SlotSignature, TouchPolicyAlways),
                         (SlotCardAuthentication, TouchPolicyNever)]
                   else [(SlotAuthentication, TouchPolicyCached)])
      in prefix (generated evs) table \<and> prefix (stored evs) (map fst table)
        \<and> (r = None \<longrightarrow> generated evs = table \<and> stored evs = map fst table))"
proof -
  define table where "table = (if AllTouchPolicies cmd
                   then [(SlotAuthentication, TouchPolicyCached), (SlotSignature, TouchPolicyAlways),
                         (SlotCardAuthentication, TouchPolicyNever)]
                   else [(SlotAuthentication, TouchPolicyCached)])"
  have table: "map specOf (keySpecOf cmd) = table" "map slot (keySpecOf cmd) = map fst table"
    by (simp_all add: table_def keySpecOf_def allKeySpec_def specOf_def)
  have "\<exists>evs. t' = t @ evs \<and> prefix (generated evs) table \<and> prefix (stored evs) (map fst table)
        \<and> (r = None \<longrightarrow> generated evs = table \<and> stored evs = map fst table)"
    using assms
  proof (cases rule: setup_cases)
    case guardFailed
    then show ?thesis
      by (cases rule: guardSection_cases) (auto simp add: obs_defs)
  next
    case (rotationFailed g i err mk)
    then show ?thesis
      using guardPassed_events [of e cmd k t g]
      by (intro exI [where x = "g @ map (\<lambda>c. (c, None)) (take i (rotationCalls k mk (FormatUint (PIN cmd))))
              @ [(rotationCalls k mk (FormatUint (PIN cmd)) ! i, Some err)]"])
         (simp add: obs_append rotation_events)
  next
    case (rotated g mk)
    from configureSlots_events [OF rotated(3)] obtain evs where
      evs: "t' = (t @ g @ map (\<lambda>c. (c, None)) (rotationCalls k mk (FormatUint (PIN cmd)))) @ evs"
        "prefix (generated evs) table" "prefix (stored evs) (map fst table)"
        "r = None \<longrightarrow> generated evs = table \<and> stored evs = map fst table"
      unfolding table by blast
    have all: "rotationCalls k mk (FormatUint (PIN cmd)) = take 5 (rotationCalls k mk (FormatUint (PIN cmd)))"
      by (simp add: rotationCalls_def)
    have pre: "generated (map (\<lambda>c. (c, None)) (rotationCalls k mk (FormatUint (PIN cmd)))) = []"
      "stored (map (\<lambda>c. (c, None :: goerr option)) (rotationCalls k mk (FormatUint (PIN cmd)))) = []"
      by (subst all, rule rotation_events)+
    show ?thesis
      using evs guardPassed_events [OF rotated(1)] pre
      by (intro exI [where x = "g @ map (\<lambda>c. (c, None)) (rotationCalls k mk (FormatUint (PIN cmd))) @ evs"])
         (simp add: obs_append)
  qed
  then show ?thesis
    unfolding table_def Let_def by blast
qed

lemmas sim_setup_defs = SetupCmd_setup_def configureSlot_def keySpecOf_def allKeySpec_def
  run_defs sim_defs

theorem setup_slot_table_witness:
  "fst (SetupCmd_setup (simEnv False [] [] never) cmdSingle 1 []) = None
   \<and> generated (snd (SetupCmd_setup (simEnv False [] [] never) cmdSingle 1 []))
       = [(SlotAuthentication, TouchPolicyCached)]
   \<and> stored (snd (SetupCmd_setup (simEnv False [] [] never) cmdSingle 1 [])) = [SlotAuthentication]
   \<and> fst (SetupCmd_setup (simEnv False [] [] never) cmdAll 1 []) = None
   \<and> generated (snd (SetupCmd_setup (simEnv False [] [] never) cmdAll 1 []))
       = [(SlotAuthentication, TouchPolicyCached), (SlotSignature, TouchPolicyAlways),
          (SlotCardAuthentication, TouchPolicyNever)]
   \<and> stored (snd (SetupCmd_setup (simEnv False [] [] never) cmdAll 1 []))
       = [SlotAuthentication, SlotSignature, SlotCardAuthentication]"
proof -
  have ok1: "fst (SetupCmd_setup (simEnv False [] [] never) cmdSingle 1 []) = None"
    by (simp add: sim_setup_defs)
  have ok3: "fst (SetupCmd_setup (simEnv False [] [] never) cmdAll 1 []) = None"
    by (simp add: sim_setup_defs)
  from setup_slot_table [OF surjective_pairing, of "simEnv False [] [] never" cmdSingle 1 "[]"]
  have one: "generated (snd (SetupCmd_setup (simEnv False [] [] never) cmdSingle 1 []))
       = [(SlotAuthentication, TouchPolicyCached)]
     \<and> stored (snd (SetupCmd_setup (simEnv False [] [] never) cmdSingle 1 [])) = [SlotAuthentication]"
    unfolding ok1 by (auto simp add: cmdSingle_def Let_def)
  from setup_slot_table [OF surjective_pairing, of "simEnv False [] [] never" cmdAll 1 "[]"]
  have three: "generated (snd (SetupCmd_setup (simEnv False [] [] never) cmdAll 1 []))
       = [(SlotAuthentication, TouchPolicyCached), (SlotSignature, TouchPolicyAlways),
          (SlotCardAuthentication, TouchPolicyNever)]
   \<and> stored (snd (SetupCmd_setup (simEnv False [] [] never) cmdAll 1 []))
       = [SlotAuthentication, SlotSignature, SlotCardAuthentication]"
    unfolding ok3 by (auto simp add: cmdAll_def Let_def)
  show ?thesis using ok1 ok3 one three by simp
qed

text \<open>C6: when \<open>setup\<close> fails configuring a slot, that slot is some entry \<open>i\<close> of the
  active table, and the calls of \<open>setup\<close> are: the guard and the rotation (\<open>pre\<close>), the
  successful configuration of the entries before \<open>i\<close> (\<open>before\<close>), and the calls of the
  failing \<open>configureSlot\<close> (\<open>failing\<close>), with nothing after them. Keys were generated for
  the entries up to \<open>i\<close> and for no later one. The earlier slots have their certificates
  stored and their two lines printed, every call for them succeeded, and the failing part
  prints nothing, touches no slot but its own (so it resets nothing and undoes nothing), and
  stops at its first failing call.\<close>
theorem setup_slot_failure:
  assumes "SetupCmd_setup e cmd k t = (Some (CouldntConfigureSlot s err), t')"
  shows "\<exists>i mk pre before failing.
       i < length (keySpecOf cmd) \<and> s = slot (keySpecOf cmd ! i)
     \<and> t' = t @ pre @ before @ failing
     \<and> configureSlots e k mk (take i (keySpecOf cmd)) (t @ pre) = (None, t @ pre @ before)
     \<and> configureSlot e k mk s (touchPolicy (keySpecOf cmd ! i)) (t @ pre @ before) = (Some err, t')
     \<and> generated (pre @ before @ failing) = map specOf (take (Suc i) (keySpecOf cmd))
     \<and> stored (pre @ before) = map slot (take i (keySpecOf cmd))
     \<and> labels (pre @ before) = map (\<lambda>ss. touchString (touchPolicy ss)) (take i (keySpecOf cmd))
     \<and> length (printed (pre @ before)) = 2 * i
     \<and> (\<forall>ev \<in> set before. snd ev = None)
     \<and> printed failing = []
     \<and> (\<forall>ev \<in> set failing. isSlotCall (fst ev) \<and> slotOf (fst ev) \<in> {None, Some s})
     \<and> (\<forall>ev \<in> set (butlast failing). snd ev = None)"
  using assms
proof (cases rule: setup_cases)
  case guardFailed
  then show ?thesis
    by (cases rule: guardSection_cases) auto
next
  case (rotationFailed g i err' mk)
  have "i = 0 \<or> i = 1 \<or> i = 2 \<or> i = 3 \<or> i = 4" using \<open>i < 5\<close> by arith
  with rotationFailed(4) show ?thesis
    by (auto simp add: rotationError_def)
next
  case (rotated g mk)
  define pre where "pre = g @ map (\<lambda>c. (c, None :: goerr option)) (rotationCalls k mk (FormatUint (PIN cmd)))"
  have loop: "configureSlots e k mk (keySpecOf cmd) (t @ pre) = (Some (CouldntConfigureSlot s err), t')"
    using rotated(3) by (simp add: pre_def)
  have all: "rotationCalls k mk (FormatUint (PIN cmd)) = take 5 (rotationCalls k mk (FormatUint (PIN cmd)))"
    by (simp add: rotationCalls_def)
  have "generated (map (\<lambda>c. (c, None)) (rotationCalls k mk (FormatUint (PIN cmd)))) = []"
      "stored (map (\<lambda>c. (c, None :: goerr option)) (rotationCalls k mk (FormatUint (PIN cmd)))) = []"
      "printed (map (\<lambda>c. (c, None :: goerr option)) (rotationCalls k mk (FormatUint (PIN cmd)))) = []"
      by (subst all, rule rotation_events)+
  then have pre: "generated pre = []" "stored pre = []" "printed pre = []"
    using guardPassed_events [OF rotated(1)] by (simp_all add: pre_def obs_append)
  have lpre: "labels pre = []"
    using rotated(1)
    by (auto simp add: pre_def labels_def rotationCalls_def guardPassed_def split: sum.splits)
  from configureSlots_Some [OF loop] obtain i err' mid where
    i: "i < length (keySpecOf cmd)" "s = slot (keySpecOf cmd ! i)" "err = err'"
    and before: "configureSlots e k mk (take i (keySpecOf cmd)) (t @ pre) = (None, mid)"
    and failing: "configureSlot e k mk (slot (keySpecOf cmd ! i)) (touchPolicy (keySpecOf cmd ! i)) mid = (Some err', t')"
    by auto
  from configureSlots_None [OF before] obtain evs1 where
    evs1: "mid = (t @ pre) @ evs1" "generated evs1 = map specOf (take i (keySpecOf cmd))"
      "stored evs1 = map slot (take i (keySpecOf cmd))"
      "labels evs1 = map (\<lambda>ss. touchString (touchPolicy ss)) (take i (keySpecOf cmd))"
      "length (printed evs1) = 2 * length (take i (keySpecOf cmd))"
      "\<forall>ev \<in> set evs1. snd ev = None"
    by blast
  from configureSlot_Some [OF failing] obtain evs2 where
    evs2: "t' = mid @ evs2" "printed evs2 = []" "generated evs2 = [specOf (keySpecOf cmd ! i)]"
      "\<forall>ev \<in> set evs2. isSlotCall (fst ev) \<and> slotOf (fst ev) \<in> {None, Some s}"
      "\<forall>ev \<in> set (butlast evs2). snd ev = None"
    unfolding specOf_def i(2) by blast
  have tk: "take (Suc i) (keySpecOf cmd) = take i (keySpecOf cmd) @ [keySpecOf cmd ! i]"
    using i by (simp add: take_Suc_conv_app_nth)
  have len: "length (take i (keySpecOf cmd)) = i" using i by simp
  show ?thesis
    apply (rule exI [where x = i], rule exI [where x = mk], rule exI [where x = pre],
        rule exI [where x = evs1], rule exI [where x = evs2])
    using i before failing evs1 evs2 pre lpre len
    by (simp add: obs_append tk)
qed

theorem setup_slot_failure_witness:
  "fst (SetupCmd_setup (simEnv False [] [] (failAt 21)) cmdAll 1 [])
     = Some (CouldntConfigureSlot SlotSignature (CouldntSetCertificate (ErrOther ''injected'')))
   \<and> (\<exists>pre before failing.
        snd (SetupCmd_setup (simEnv False [] [] (failAt 21)) cmdAll 1 []) = [] @ pre @ before @ failing
      \<and> generated (pre @ before @ failing)
          = [(SlotAuthentication, TouchPolicyCached), (SlotSignature, TouchPolicyAlways)]
      \<and> stored (pre @ before) = [SlotAuthentication]
      \<and> labels (pre @ before) = [''cached'']
      \<and> length (printed (pre @ before)) = 2
      \<and> printed failing = [])"
proof -
  have run: "SetupCmd_setup (simEnv False [] [] (failAt 21)) cmdAll 1 []
     = (Some (CouldntConfigureSlot SlotSignature (CouldntSetCertificate (ErrOther ''injected''))),
        snd (SetupCmd_setup (simEnv False [] [] (failAt 21)) cmdAll 1 []))"
    by (simp add: sim_setup_defs failAt_def)
  from setup_slot_failure [OF run] obtain i pre before failing where
    i: "i < length (keySpecOf cmdAll)" "SlotSignature = slot (keySpecOf cmdAll ! i)"
    and tr: "snd (SetupCmd_setup (simEnv False [] [] (failAt 21)) cmdAll 1 []) = [] @ pre @ before @ failing"
    and obs: "generated (pre @ before @ failing) = map specOf (take (Suc i) (keySpecOf cmdAll))"
      "stored (pre @ before) = map slot (take i (keySpecOf cmdAll))"
      "labels (pre @ before) = map (\<lambda>ss. touchString (touchPolicy ss)) (take i (keySpecOf cmdAll))"
      "length (printed (pre @ before)) = 2 * i"
      "printed failing = []"
    by blast
  have ks: "keySpecOf cmdAll = allKeySpec" by (simp add: keySpecOf_def cmdAll_def)
  from i have "i = 0 \<or> i = 1 \<or> i = 2" unfolding ks allKeySpec_def by auto
  with i(2) have i1: "i = 1" unfolding ks allKeySpec_def by auto
  have "fst (SetupCmd_setup (simEnv False [] [] (failAt 21)) cmdAll 1 [])
     = Some (CouldntConfigureSlot SlotSignature (CouldntSetCertificate (ErrOther ''injected'')))"
    using run by (metis fst_conv)
  moreover have "generated (pre @ before @ failing)
          = [(SlotAuthentication, TouchPolicyCached), (SlotSignature, TouchPolicyAlways)]"
      "stored (pre @ before) = [SlotAuthentication]"
      "labels (pre @ before) = [''cached'']"
      "length (printed (pre @ before)) = 2"
    using obs unfolding i1 ks
    by (simp_all add: allKeySpec_def specOf_def touchString_def touchStringMap_def)
  ultimately show ?thesis using tr obs(5) by blast
qed

lemma slotCall_not_rotation: "isSlotCall c \<Longrightarrow> \<not> isRotation c \<and> c \<noteq> Reset k"
  by (cases c) simp_all

lemma rotationCalls_facts:
  "length (rotationCalls k mk pin) = 5"
  "distinct (rotationCalls k mk pin)"
  "\<forall>c \<in> set (rotationCalls k mk pin). isRotation c \<and> c \<noteq> Reset k'"
  "rotationCalls k mk pin ! 0 = RandRead 24"
  by (simp_all add: rotationCalls_def)

lemma rotation_filter:
  assumes "\<forall>ev \<in> set (g @ rest). \<not> isRotation (fst ev)"
    and "prefix (map fst rot) (rotationCalls k mk pin)"
  shows "filter isRotation (map fst (g @ rot @ rest)) = map fst rot"
proof -
  have "set (map fst rot) \<subseteq> set (rotationCalls k mk pin)"
    using assms(2) by (rule set_mono_prefix)
  then have "\<forall>c \<in> set (map fst rot). isRotation c"
    using rotationCalls_facts(3) [of k mk pin] by blast
  then have "filter isRotation (map fst rot) = map fst rot"
    by (simp only: filter_id_conv)
  moreover have "filter isRotation (map fst g) = []" "filter isRotation (map fst rest) = []"
    using assms(1) by (auto simp add: filter_empty_conv)
  ultimately show ?thesis by simp
qed

text \<open>C3: the rotation of the secrets. The calls of \<open>setup\<close> split into the guard
  \<open>g\<close>, the rotation \<open>rot\<close> and the rest, and \<open>rot\<close> holds all the rotation calls
  of the run. It starts exactly when the guard passed. Its calls are an initial part of the
  sequence \<open>rotationCalls\<close>: reading 24 bytes from \<open>crypto/rand\<close>, installing them as
  the management key with the default management key, storing that key in the metadata,
  setting the PIN from the default PIN and setting the PUK from the default PUK, both to
  the decimal string of the PIN of the command. No call is made twice. Every call but the
  last succeeded; when the last one succeeded too the sequence is complete, and when it
  failed nothing follows it and \<open>setup\<close> returns the error of that step.\<close>
theorem setup_rotation_sequence:
  assumes "SetupCmd_setup e cmd k t = (r, t')"
  shows "\<exists>g rot rest mk. t' = t @ g @ rot @ rest \<and> length mk = 24
     \<and> (\<forall>ev \<in> set (g @ rest). \<not> isRotation (fst ev))
     \<and> filter isRotation (map fst (g @ rot @ rest)) = map fst rot
     \<and> (rot \<noteq> []) = guardPassed e cmd k t g
     \<and> prefix (map fst rot) (rotationCalls k mk (FormatUint (PIN cmd)))
     \<and> distinct (map fst rot)
     \<and> (1 < length rot \<longrightarrow>
          (\<exists>bytes. rand_Read e (length (t @ g)) 24 = Inr bytes \<and> mk = map bytes [0..<24]))
     \<and> (\<forall>ev \<in> set (butlast rot). snd ev = None)
     \<and> (rot \<noteq> [] \<and> snd (last rot) = None \<longrightarrow>
          map fst rot = rotationCalls k mk (FormatUint (PIN cmd)))
     \<and> (\<forall>err. rot \<noteq> [] \<and> snd (last rot) = Some err \<longrightarrow>
          rest = [] \<and> r = Some (rotationError (length rot - 1) err))
     \<and> (rot = [] \<longrightarrow> rest = [] \<and> r \<noteq> None)"
  using assms
proof (cases rule: setup_cases)
  case guardFailed
  from guardFailed(1) obtain g where g: "t' = t @ g" "\<not> guardPassed e cmd k t g"
    "\<forall>ev \<in> set g. \<not> isRotation (fst ev)"
    using guardFailed(2)
    by (cases rule: guardSection_cases) (auto simp add: guardPassed_def)
  show ?thesis
    apply (rule exI [where x = g], rule exI [where x = "[]"], rule exI [where x = "[]"],
        rule exI [where x = "replicate 24 0"])
    using g guardFailed(2) by (simp add: filter_empty_conv)
next
  case (rotationFailed g i err mk)
  define calls where "calls = rotationCalls k mk (FormatUint (PIN cmd))"
  define rot where "rot = map (\<lambda>c. (c, None :: goerr option)) (take i calls) @ [(calls ! i, Some err)]"
  note facts = rotationCalls_facts [of k mk "FormatUint (PIN cmd)", folded calls_def]
  have fst_rot: "map fst rot = take (Suc i) calls"
    using \<open>i < 5\<close> facts(1) by (simp add: rot_def take_Suc_conv_app_nth comp_def)
  have pre: "prefix (map fst rot) calls"
    unfolding fst_rot by (rule take_is_prefix)
  have dist: "distinct (map fst rot)"
    unfolding fst_rot using facts(2) by simp
  have len: "length rot - 1 = i" "1 < length rot \<longleftrightarrow> i \<noteq> 0"
    using \<open>i < 5\<close> facts(1) by (auto simp add: rot_def)
  have g: "\<forall>ev \<in> set (g @ []). \<not> isRotation (fst ev)"
    using guardPassed_events [OF rotationFailed(1)] by (auto simp add: filter_empty_conv)
  note flt = rotation_filter [OF g pre [unfolded calls_def]]
  show ?thesis
    apply (rule exI [where x = g], rule exI [where x = rot], rule exI [where x = "[]"],
        rule exI [where x = mk])
    using rotationFailed pre dist len g flt
    by (auto simp add: rot_def calls_def)
next
  case (rotated g mk)
  define calls where "calls = rotationCalls k mk (FormatUint (PIN cmd))"
  define rot where "rot = map (\<lambda>c. (c, None :: goerr option)) calls"
  note facts = rotationCalls_facts [of k mk "FormatUint (PIN cmd)", folded calls_def]
  from configureSlots_events [OF rotated(3)] obtain rest where
    rest: "t' = (t @ g @ rot) @ rest" "\<forall>ev \<in> set rest. isSlotCall (fst ev)"
    unfolding rot_def calls_def by blast
  have g: "\<forall>ev \<in> set g. \<not> isRotation (fst ev)"
    using guardPassed_events [OF rotated(1)] by (auto simp add: filter_empty_conv)
  have fst_rot: "map fst rot = calls" by (simp add: rot_def comp_def)
  have cne: "calls \<noteq> []" using facts(1) by auto
  have ne: "rot \<noteq> []" "length rot = 5" "snd (last rot) = None"
    using facts(1) cne by (simp_all add: rot_def last_map)
  have oks: "\<forall>ev \<in> set (butlast rot). snd ev = None"
    by (auto simp add: rot_def dest: in_set_butlastD)
  have dist: "distinct (map fst rot)"
    unfolding fst_rot using facts(2) .
  have nr: "\<forall>ev \<in> set (g @ rest). \<not> isRotation (fst ev)"
    using g rest(2) slotCall_not_rotation by auto
  have "prefix (map fst rot) (rotationCalls k mk (FormatUint (PIN cmd)))"
    unfolding fst_rot calls_def by simp
  note flt = rotation_filter [OF nr this]
  show ?thesis
    apply (rule exI [where x = g], rule exI [where x = rot], rule exI [where x = rest],
        rule exI [where x = mk])
    using rotated(1,2,4) rest(1) nr fst_rot ne oks dist flt
    by (simp add: calls_def)
qed

theorem setup_rotation_sequence_witness:
  "fst (SetupCmd_setup (simEnv False [] [] never) cmdSingle 1 []) = None
   \<and> FormatUint (PIN cmdSingle) = ''123456''
   \<and> (\<exists>g rot rest.
         snd (SetupCmd_setup (simEnv False [] [] never) cmdSingle 1 []) = [] @ g @ rot @ rest
       \<and> guardPassed (simEnv False [] [] never) cmdSingle 1 [] g
       \<and> map fst rot = rotationCalls 1 simKey ''123456'')
   \<and> map snd (filter (\<lambda>ev. isRotation (fst ev))
        (snd (SetupCmd_setup (simEnv False [] [] never) cmdSingle 1 []))) = [None, None, None, None, None]"
proof -
  have ok: "fst (SetupCmd_setup (simEnv False [] [] never) cmdSingle 1 []) = None"
    by (simp add: sim_setup_defs)
  have pin: "FormatUint (PIN cmdSingle) = ''123456''"
    by (simp add: cmdSingle_def FormatUint_def formatBits.simps)
  have calls: "filter isRotation (map fst (snd (SetupCmd_setup (simEnv False [] [] never) cmdSingle 1 [])))
      = rotationCalls 1 simKey ''123456''"
    by (simp add: sim_setup_defs rotationCalls_def FormatUint_def formatBits.simps)
  have oks: "map snd (filter (\<lambda>ev. isRotation (fst ev))
        (snd (SetupCmd_setup (simEnv False [] [] never) cmdSingle 1 []))) = [None, None, None, None, None]"
    by (simp add: sim_setup_defs)
  from setup_rotation_sequence [OF surjective_pairing, of "simEnv False [] [] never" cmdSingle 1 "[]"]
  obtain g rot rest where
    tr: "snd (SetupCmd_setup (simEnv False [] [] never) cmdSingle 1 []) = [] @ g @ rot @ rest"
    and flt: "filter isRotation (map fst (g @ rot @ rest)) = map fst rot"
    and gp: "(rot \<noteq> []) = guardPassed (simEnv False [] [] never) cmdSingle 1 [] g"
    and ne: "rot = [] \<longrightarrow> fst (SetupCmd_setup (simEnv False [] [] never) cmdSingle 1 []) \<noteq> None"
    by blast
  from ne ok gp have "guardPassed (simEnv False [] [] never) cmdSingle 1 [] g" by simp
  moreover from flt tr calls have "map fst rot = rotationCalls 1 simKey ''123456''" by simp
  ultimately show ?thesis using ok pin tr oks by blast
qed

lemma setup_after_guard:
  assumes "SetupCmd_setup e cmd k t = (r, t')" and "guardPassed e cmd k t g"
  shows "\<exists>res rest. t' = t @ g @ [(RandRead 24, res)] @ rest
    \<and> (\<forall>ev \<in> set ((RandRead 24, res) # rest). fst ev \<noteq> Reset k)"
  using assms(1)
proof (cases rule: setup_cases)
  case guardFailed
  from guardFailed(1) assms(2) guardFailed(2) show ?thesis
    by (cases rule: guardSection_cases) (auto simp add: guardPassed_def)
next
  case (rotationFailed g' i err mk)
  have gg: "g' = g"
    using rotationFailed(1) assms(2) by (auto simp add: guardPassed_def split: sum.splits)
  have "i = 0 \<or> i = 1 \<or> i = 2 \<or> i = 3 \<or> i = 4" using \<open>i < 5\<close> by arith
  then show ?thesis
    using rotationFailed(5) unfolding gg
    by (auto simp add: rotationCalls_def eval_nat_numeral)
next
  case (rotated g' mk)
  have gg: "g' = g"
    using rotated(1) assms(2) by (auto simp add: guardPassed_def split: sum.splits)
  from configureSlots_events [OF rotated(3)] obtain evs where
    evs: "t' = (t @ g' @ map (\<lambda>c. (c, None)) (rotationCalls k mk (FormatUint (PIN cmd)))) @ evs"
      "\<forall>ev \<in> set evs. isSlotCall (fst ev)"
    by blast
  then show ?thesis
    unfolding gg using slotCall_not_rotation [where k = k]
    by (auto simp add: rotationCalls_def)
qed

text \<open>C2: the guard of \<open>setup\<close>, by the answer of the device to the query for the
  certificate of the authentication slot. A certificate and no overwrite flag:
  \<open>setup\<close> fails with the already-provisioned error and its only call is the query, so
  nothing on the device changed. A certificate and the flag: the reset is the next call;
  when it fails \<open>setup\<close> fails with that error and makes no further call, and when it
  succeeds the rotation starts (the next call reads the random bytes). No certificate
  (the error of the query is \<open>ErrNotFound\<close>, possibly wrapped): the rotation starts
  right after the query and no reset is ever made. Any other error of the query:
  \<open>setup\<close> fails with it, a hardware error, and makes no further call.\<close>
theorem setup_device_guard:
  assumes "SetupCmd_setup e cmd k t = (r, t')"
  shows "case k_Certificate e (length t) k SlotAuthentication of
      Inr c \<Rightarrow>
        if \<not> ResetSecurityKey cmd
        then r = Some AlreadySetUp \<and> errClass AlreadySetUp = AlreadyProvisionedError
           \<and> t' = t @ [(Certificate k SlotAuthentication, None)]
           \<and> filter isMutation (map fst (drop (length t) t')) = []
        else (case k_Reset e (Suc (length t)) k of
                Inl err \<Rightarrow> r = Some (CouldntResetSecurityKey err)
                  \<and> t' = t @ [(Certificate k SlotAuthentication, None), (Reset k, Some err)]
              | Inr u \<Rightarrow> \<exists>res rest.
                  t' = t @ [(Certificate k SlotAuthentication, None), (Reset k, None),
                            (RandRead 24, res)] @ rest)
    | Inl err \<Rightarrow>
        if errors_Is err ErrNotFound
        then \<exists>res rest.
               t' = t @ [(Certificate k SlotAuthentication, Some err), (RandRead 24, res)] @ rest
             \<and> (\<forall>ev \<in> set rest. fst ev \<noteq> Reset k)
        else r = Some (CouldntGetCertificate err) \<and> errClass (CouldntGetCertificate err) = HardwareError
           \<and> t' = t @ [(Certificate k SlotAuthentication, Some err)]"
proof (cases "k_Certificate e (length t) k SlotAuthentication")
  case (Inr c)
  show ?thesis
  proof (cases "ResetSecurityKey cmd")
    case False
    with Inr assms show ?thesis
      by (auto simp add: setup_sections guardSection_def run_defs)
  next
    case True
    show ?thesis
    proof (cases "k_Reset e (Suc (length t)) k")
      case (Inl err)
      with Inr True assms show ?thesis
        by (simp add: setup_sections guardSection_def run_defs)
    next
      case reset: (Inr u)
      with Inr True have "guardPassed e cmd k t [(Certificate k SlotAuthentication, None), (Reset k, None)]"
        by (simp add: guardPassed_def)
      from setup_after_guard [OF assms this] show ?thesis
        using Inr True reset by auto
    qed
  qed
next
  case (Inl err)
  show ?thesis
  proof (cases "errors_Is err ErrNotFound")
    case False
    with Inl assms show ?thesis
      by (simp add: setup_sections guardSection_def run_defs)
  next
    case True
    with Inl have "guardPassed e cmd k t [(Certificate k SlotAuthentication, Some err)]"
      by (simp add: guardPassed_def)
    from setup_after_guard [OF assms this] show ?thesis
      using Inl True by auto
  qed
qed

theorem setup_device_guard_witness:
  "k_Certificate (simEnv True [] [] never) (length ([] :: trace)) 1 SlotAuthentication = Inr zero_Certificate
   \<and> SetupCmd_setup (simEnv True [] [] never) cmdAll 1 []
       = (Some AlreadySetUp, [(Certificate 1 SlotAuthentication, None)])
   \<and> k_Reset (simEnv True [] [] (failAt 1)) (Suc (length ([] :: trace))) 1 = Inl (ErrOther ''injected'')
   \<and> SetupCmd_setup (simEnv True [] [] (failAt 1)) cmdReset 1 []
       = (Some (CouldntResetSecurityKey (ErrOther ''injected'')),
          [(Certificate 1 SlotAuthentication, None), (Reset 1, Some (ErrOther ''injected''))])
   \<and> take 3 (snd (SetupCmd_setup (simEnv True [] [] never) cmdReset 1 []))
       = [(Certificate 1 SlotAuthentication, None), (Reset 1, None), (RandRead 24, None)]
   \<and> take 2 (snd (SetupCmd_setup (simEnv False [] [] never) cmdAll 1 []))
       = [(Certificate 1 SlotAuthentication, Some (ErrWrap ''command failed'' ErrNotFound)),
          (RandRead 24, None)]
   \<and> SetupCmd_setup (simEnv False [] [] (failAt 0)) cmdAll 1 []
       = (Some (CouldntGetCertificate (ErrOther ''injected'')),
          [(Certificate 1 SlotAuthentication, Some (ErrOther ''injected''))])"
proof -
  have q: "k_Certificate (simEnv True [] [] never) (length ([] :: trace)) 1 SlotAuthentication = Inr zero_Certificate"
    "k_Certificate (simEnv True [] [] (failAt 1)) (length ([] :: trace)) 1 SlotAuthentication = Inr zero_Certificate"
    "k_Reset (simEnv True [] [] (failAt 1)) (Suc (length ([] :: trace))) 1 = Inl (ErrOther ''injected'')"
    "k_Certificate (simEnv False [] [] (failAt 0)) (length ([] :: trace)) 1 SlotAuthentication = Inl (ErrOther ''injected'')"
    by (simp_all add: sim_defs failAt_def)
  have flags: "\<not> ResetSecurityKey cmdAll" "ResetSecurityKey cmdReset"
    by (simp_all add: sim_defs)
  from setup_device_guard [OF surjective_pairing, of "simEnv True [] [] never" cmdAll 1 "[]"]
  have a: "SetupCmd_setup (simEnv True [] [] never) cmdAll 1 []
       = (Some AlreadySetUp, [(Certificate 1 SlotAuthentication, None)])"
    unfolding q using flags by (simp add: prod_eq_iff)
  from setup_device_guard [OF surjective_pairing, of "simEnv True [] [] (failAt 1)" cmdReset 1 "[]"]
  have b: "SetupCmd_setup (simEnv True [] [] (failAt 1)) cmdReset 1 []
       = (Some (CouldntResetSecurityKey (ErrOther ''injected'')),
          [(Certificate 1 SlotAuthentication, None), (Reset 1, Some (ErrOther ''injected''))])"
    unfolding q using flags by (simp add: prod_eq_iff)
  from setup_device_guard [OF surjective_pairing, of "simEnv False [] [] (failAt 0)" cmdAll 1 "[]"]
  have c: "SetupCmd_setup (simEnv False [] [] (failAt 0)) cmdAll 1 []
       = (Some (CouldntGetCertificate (ErrOther ''injected'')),
          [(Certificate 1 SlotAuthentication, Some (ErrOther ''injected''))])"
    unfolding q by (simp add: prod_eq_iff)
  have d: "take 3 (snd (SetupCmd_setup (simEnv True [] [] never) cmdReset 1 []))
       = [(Certificate 1 SlotAuthentication, None), (Reset 1, None), (RandRead 24, None)]"
    "take 2 (snd (SetupCmd_setup (simEnv False [] [] never) cmdAll 1 []))
       = [(Certificate 1 SlotAuthentication, Some (ErrWrap ''command failed'' ErrNotFound)),
          (RandRead 24, None)]"
    by (simp_all add: sim_setup_defs)
  show ?thesis using q(1,3) a b c d by simp
qed

subsection \<open>The calls of a run\<close>

lemma configureSlot_calls:
  assumes "configureSlot e k mk sl tp t = (r, t')"
    and "(sl, tp) \<in> set (map specOf allKeySpec)" and "length mk = 24"
  shows "\<exists>evs. t' = t @ evs \<and> (\<forall>ev \<in> set evs. setupCall k pin (fst ev))
    \<and> (\<forall>err. r = Some err \<longrightarrow> errClass err = HardwareError \<or> errClass err = CryptoError)"
  using assms
  by (auto simp add: configureSlot_def run_defs allKeySpec_def specOf_def
      split: sum.splits prod.splits)

lemma configureSlots_calls:
  assumes "configureSlots e k mk specs t = (r, t')"
    and "set specs \<subseteq> set allKeySpec" and "length mk = 24"
  shows "\<exists>evs. t' = t @ evs \<and> (\<forall>ev \<in> set evs. setupCall k pin (fst ev))
    \<and> (\<forall>err. r = Some err \<longrightarrow> errClass err = HardwareError \<or> errClass err = CryptoError)"
  using assms
proof (induction specs arbitrary: t)
  case Nil
  then show ?case by simp
next
  case (Cons ss rest)
  have ss: "(slot ss, touchPolicy ss) \<in> set (map specOf allKeySpec)"
    using Cons.prems(2) by (auto simp add: specOf_def)
  obtain r1 t1 where first: "configureSlot e k mk (slot ss) (touchPolicy ss) t = (r1, t1)"
    by (cases "configureSlot e k mk (slot ss) (touchPolicy ss) t")
  from configureSlot_calls [OF first ss Cons.prems(3), of pin] obtain evs1 where
    evs1: "t1 = t @ evs1" "\<forall>ev \<in> set evs1. setupCall k pin (fst ev)"
      "\<forall>err. r1 = Some err \<longrightarrow> errClass err = HardwareError \<or> errClass err = CryptoError"
    by blast
  show ?case
  proof (cases r1)
    case (Some err)
    with first Cons.prems(1) have "r = Some (CouldntConfigureSlot (slot ss) err)" "t' = t1"
      by simp_all
    with evs1 Some show ?thesis by auto
  next
    case None
    with first Cons.prems(1) have more: "configureSlots e k mk rest t1 = (r, t')"
      by simp
    from Cons.IH [OF more] Cons.prems(2,3) obtain evs2 where
      "t' = t1 @ evs2" "\<forall>ev \<in> set evs2. setupCall k pin (fst ev)"
      "\<forall>err. r = Some err \<longrightarrow> errClass err = HardwareError \<or> errClass err = CryptoError"
      by auto
    with evs1 show ?thesis
      by (intro exI [where x = "evs1 @ evs2"]) auto
  qed
qed

lemma keySpecOf_subset: "set (keySpecOf cmd) \<subseteq> set allKeySpec"
  by (simp add: keySpecOf_def allKeySpec_def)

lemma setup_calls:
  assumes "SetupCmd_setup e cmd k t = (r, t')"
  shows "\<exists>evs. t' = t @ evs \<and> (\<forall>ev \<in> set evs. setupCall k (FormatUint (PIN cmd)) (fst ev))
    \<and> (\<forall>err. r = Some err \<longrightarrow> errClass err \<noteq> ValidationError \<and> errClass err \<noteq> OtherError)"
  using assms
proof (cases rule: setup_cases)
  case guardFailed
  then show ?thesis
    by (cases rule: guardSection_cases) auto
next
  case (rotationFailed g i err mk)
  have i: "i = 0 \<or> i = 1 \<or> i = 2 \<or> i = 3 \<or> i = 4" using \<open>i < 5\<close> by arith
  have g: "\<forall>ev \<in> set g. setupCall k (FormatUint (PIN cmd)) (fst ev)"
    using rotationFailed(1) by (auto simp add: guardPassed_def split: sum.splits)
  have calls: "\<forall>c \<in> set (rotationCalls k mk (FormatUint (PIN cmd))). setupCall k (FormatUint (PIN cmd)) c"
    using rotationFailed(3) by (simp add: rotationCalls_def)
  then have "\<forall>c \<in> set (take i (rotationCalls k mk (FormatUint (PIN cmd)))). setupCall k (FormatUint (PIN cmd)) c"
    by (meson in_set_takeD)
  moreover have "setupCall k (FormatUint (PIN cmd)) (rotationCalls k mk (FormatUint (PIN cmd)) ! i)"
    using calls \<open>i < 5\<close> by (simp add: rotationCalls_facts(1))
  moreover have "errClass (rotationError i err) \<noteq> ValidationError \<and> errClass (rotationError i err) \<noteq> OtherError"
    using i by (auto simp add: rotationError_def)
  ultimately show ?thesis
    using rotationFailed(4,5) g
    by (intro exI [where x = "g @ map (\<lambda>c. (c, None)) (take i (rotationCalls k mk (FormatUint (PIN cmd))))
              @ [(rotationCalls k mk (FormatUint (PIN cmd)) ! i, Some err)]"]) auto
next
  case (rotated g mk)
  have g: "\<forall>ev \<in> set g. setupCall k (FormatUint (PIN cmd)) (fst ev)"
    using rotated(1) by (auto simp add: guardPassed_def split: sum.splits)
  have calls: "\<forall>c \<in> set (rotationCalls k mk (FormatUint (PIN cmd))). setupCall k (FormatUint (PIN cmd)) c"
    using rotated(2) by (simp add: rotationCalls_def)
  from configureSlots_calls [OF rotated(3) keySpecOf_subset rotated(2), of "FormatUint (PIN cmd)"]
  obtain evs where evs: "t' = (t @ g @ map (\<lambda>c. (c, None)) (rotationCalls k mk (FormatUint (PIN cmd)))) @ evs"
    "\<forall>ev \<in> set evs. setupCall k (FormatUint (PIN cmd)) (fst ev)"
    "\<forall>err. r = Some err \<longrightarrow> errClass err = HardwareError \<or> errClass err = CryptoError"
    by blast
  show ?thesis
    using evs g calls
    by (intro exI [where x = "g @ map (\<lambda>c. (c, None)) (rotationCalls k mk (FormatUint (PIN cmd))) @ evs"]) auto
qed

lemma interactivePIN_cases:
  assumes "interactivePIN e t = (r, t')"
  obtains
    (readFailed) err where "terminal_ReadPassword e (Suc (length t)) = Inl err"
      "r = Inl (CouldntReadPIN err)"
      "t' = t @ [(Print promptEnter, None), (ReadPassword, Some err), (Println, None)]"
  | (invalid) raw err where "terminal_ReadPassword e (Suc (length t)) = Inr raw"
      "ParseUint raw = Inl err" "r = Inl (InvalidCharacters err)"
      "t' = t @ [(Print promptEnter, None), (ReadPassword, None), (Println, None)]"
  | (repeatFailed) raw pin err where "terminal_ReadPassword e (Suc (length t)) = Inr raw"
      "ParseUint raw = Inr pin" "terminal_ReadPassword e (length t + 4) = Inl err"
      "r = Inl (CouldntReadPIN err)"
      "t' = t @ [(Print promptEnter, None), (ReadPassword, None), (Println, None),
                 (Print promptRepeat, None), (ReadPassword, Some err), (Println, None)]"
  | (mismatch) raw pin repeat where "terminal_ReadPassword e (Suc (length t)) = Inr raw"
      "ParseUint raw = Inr pin" "terminal_ReadPassword e (length t + 4) = Inr repeat"
      "repeat \<noteq> raw" "r = Inl EntriesNotEqual"
      "t' = t @ [(Print promptEnter, None), (ReadPassword, None), (Println, None),
                 (Print promptRepeat, None), (ReadPassword, None), (Println, None)]"
  | (entered) raw pin where "terminal_ReadPassword e (Suc (length t)) = Inr raw"
      "ParseUint raw = Inr pin" "terminal_ReadPassword e (length t + 4) = Inr raw"
      "r = Inr pin"
      "t' = t @ [(Print promptEnter, None), (ReadPassword, None), (Println, None),
                 (Print promptRepeat, None), (ReadPassword, None), (Println, None)]"
proof -
  have n: "length t + 4 = Suc (Suc (Suc (Suc (length t))))" by simp
  show ?thesis
    using assms that unfolding n
    by (auto simp add: interactivePIN_def run_defs promptEnter_def promptRepeat_def
        split: sum.splits prod.splits if_splits)
qed

lemma interactivePIN_events:
  assumes "interactivePIN e t = (r, t')"
  shows "\<exists>evs. t' = t @ evs \<and> (\<forall>ev \<in> set evs. isTerminal (fst ev))
    \<and> (\<forall>err. r = Inl err \<longrightarrow> errClass err = ValidationError \<or> errClass err = OtherError)"
  using assms by (cases rule: interactivePIN_cases) auto

lemma Run_noLogger:
  assumes "zap_NewDevelopment e 0 = Some err"
  shows "Run e cmd [] = (Some (CouldntInitLogger err), [(ZapNewDevelopment, Some err)])"
  using assms by (simp add: Run_def run_defs)

lemma Run_noPIN:
  assumes "zap_NewDevelopment e 0 = None" and "PIN cmd = 0"
    and "interactivePIN e [(ZapNewDevelopment, None)] = (Inl err, tc)"
  shows "Run e cmd [] = (Some err, tc @ [(LogSync, None)])"
  using assms by (simp add: Run_def run_defs)

lemma Run_outOfRange:
  assumes "zap_NewDevelopment e 0 = None" and "collected e cmd pin pre"
    and "pin < 100000 \<or> pin > 99999999"
  shows "Run e cmd [] = (Some InvalidPIN, (ZapNewDevelopment, None) # pre @ [(LogSync, None)])"
  using assms by (auto simp add: Run_def run_defs collected_def split: if_splits)

lemma Run_noKey:
  assumes "zap_NewDevelopment e 0 = None" and "collected e cmd pin pre"
    and "100000 \<le> pin" and "pin \<le> 99999999"
    and "getSecurityKey e (Suc (length pre)) (Card cmd) = Inl err"
  shows "Run e cmd [] = (Some (CouldntGetSecurityKey err),
     (ZapNewDevelopment, None) # pre @ [(GetSecurityKey (Card cmd), Some err), (LogSync, None)])"
  using assms by (auto simp add: Run_def run_defs collected_def split: if_splits)

lemma Run_started:
  assumes "zap_NewDevelopment e 0 = None" and "collected e cmd pin pre"
    and "100000 \<le> pin" and "pin \<le> 99999999"
    and "getSecurityKey e (Suc (length pre)) (Card cmd) = Inr k"
  shows "Run e cmd [] =
     (fst (SetupCmd_setup e (cmd\<lparr>PIN := pin\<rparr>) k
         ((ZapNewDevelopment, None) # pre @ [(GetSecurityKey (Card cmd), None)])),
      snd (SetupCmd_setup e (cmd\<lparr>PIN := pin\<rparr>) k
         ((ZapNewDevelopment, None) # pre @ [(GetSecurityKey (Card cmd), None)]))
        @ [(LogSync, None)])"
  using assms
  by (auto simp add: Run_def run_defs collected_def split: if_splits prod.splits)

lemma Run_cases:
  assumes "Run e cmd [] = (r, t')"
  obtains
    (noLogger) err where "zap_NewDevelopment e 0 = Some err" "r = Some (CouldntInitLogger err)"
      "t' = [(ZapNewDevelopment, Some err)]"
  | (noPIN) err pre where "zap_NewDevelopment e 0 = None" "PIN cmd = 0"
      "interactivePIN e [(ZapNewDevelopment, None)] = (Inl err, (ZapNewDevelopment, None) # pre)"
      "r = Some err" "t' = (ZapNewDevelopment, None) # pre @ [(LogSync, None)]"
  | (outOfRange) pin pre where "zap_NewDevelopment e 0 = None" "collected e cmd pin pre"
      "pin < 100000 \<or> pin > 99999999" "r = Some InvalidPIN"
      "t' = (ZapNewDevelopment, None) # pre @ [(LogSync, None)]"
  | (noKey) pin pre err where "zap_NewDevelopment e 0 = None" "collected e cmd pin pre"
      "100000 \<le> pin" "pin \<le> 99999999"
      "getSecurityKey e (Suc (length pre)) (Card cmd) = Inl err"
      "r = Some (CouldntGetSecurityKey err)"
      "t' = (ZapNewDevelopment, None) # pre @ [(GetSecurityKey (Card cmd), Some err), (LogSync, None)]"
  | (started) pin pre k t1 where "zap_NewDevelopment e 0 = None" "collected e cmd pin pre"
      "100000 \<le> pin" "pin \<le> 99999999"
      "getSecurityKey e (Suc (length pre)) (Card cmd) = Inr k"
      "SetupCmd_setup e (cmd\<lparr>PIN := pin\<rparr>) k
         ((ZapNewDevelopment, None) # pre @ [(GetSecurityKey (Card cmd), None)]) = (r, t1)"
      "t' = t1 @ [(LogSync, None)]"
proof (cases "zap_NewDevelopment e 0")
  case (Some err)
  from assms Run_noLogger [OF Some, of cmd] Some show ?thesis
    by (intro noLogger [of err]) simp_all
next
  case None
  have col: "(\<exists>err pre. PIN cmd = 0
        \<and> interactivePIN e [(ZapNewDevelopment, None)] = (Inl err, (ZapNewDevelopment, None) # pre))
      \<or> (\<exists>pin pre. collected e cmd pin pre)"
  proof (cases "PIN cmd = 0")
    case False
    then have "collected e cmd (PIN cmd) []" by (simp add: collected_def)
    then show ?thesis by blast
  next
    case True
    obtain c tc where ip: "interactivePIN e [(ZapNewDevelopment, None)] = (c, tc)"
      by (cases "interactivePIN e [(ZapNewDevelopment, None)]")
    from interactivePIN_events [OF ip] obtain pre where "tc = (ZapNewDevelopment, None) # pre"
      by auto
    with ip True show ?thesis
      by (cases c) (auto simp add: collected_def)
  qed
  then show ?thesis
  proof (elim disjE exE conjE)
    fix err pre
    assume "PIN cmd = 0"
      and ip: "interactivePIN e [(ZapNewDevelopment, None)] = (Inl err, (ZapNewDevelopment, None) # pre)"
    with assms Run_noPIN [OF None this] None show ?thesis
      by (intro noPIN [of err pre]) simp_all
  next
    fix pin pre
    assume cl: "collected e cmd pin pre"
    show ?thesis
    proof (cases "pin < 100000 \<or> pin > 99999999")
      case True
      with assms Run_outOfRange [OF None cl True] None cl show ?thesis
        by (intro outOfRange [of pin pre]) simp_all
    next
      case False
      then have rng: "100000 \<le> pin" "pin \<le> 99999999" by auto
      show ?thesis
      proof (cases "getSecurityKey e (Suc (length pre)) (Card cmd)")
        case (Inl err)
        with assms Run_noKey [OF None cl rng Inl] None cl rng show ?thesis
          by (intro noKey [of pin pre err]) simp_all
      next
        case (Inr k)
        define t1 where "t1 = snd (SetupCmd_setup e (cmd\<lparr>PIN := pin\<rparr>) k
          ((ZapNewDevelopment, None) # pre @ [(GetSecurityKey (Card cmd), None)]))"
        from assms Run_started [OF None cl rng Inr]
        have "SetupCmd_setup e (cmd\<lparr>PIN := pin\<rparr>) k
          ((ZapNewDevelopment, None) # pre @ [(GetSecurityKey (Card cmd), None)]) = (r, t1)"
          "t' = t1 @ [(LogSync, None)]"
          by (auto simp add: t1_def prod_eq_iff)
        with None cl rng Inr show ?thesis
          by (intro started [of pin pre k t1])
      qed
    qed
  qed
qed

lemma collected_flag: "PIN cmd \<noteq> 0 \<Longrightarrow> collected e cmd pin pre = (pin = PIN cmd \<and> pre = [])"
  by (simp add: collected_def)

lemma collected_prompt:
  assumes "PIN cmd = 0"
  shows "collected e cmd pin pre =
    (\<exists>raw. terminal_ReadPassword e 2 = Inr raw \<and> ParseUint raw = Inr pin
       \<and> terminal_ReadPassword e 5 = Inr raw \<and> pre = promptEvents)"
proof -
  have n: "Suc (Suc 0) = 2" "Suc (Suc (Suc (Suc (Suc 0)))) = 5" by simp_all
  show ?thesis
    using assms unfolding n [symmetric]
    by (auto simp add: collected_def interactivePIN_def run_defs promptEvents_def
        promptEnter_def promptRepeat_def split: sum.splits if_splits)
qed

lemma prompt_invalid:
  assumes "terminal_ReadPassword e 2 = Inr raw" and "ParseUint raw = Inl err"
  shows "interactivePIN e [(ZapNewDevelopment, None)] = (Inl (InvalidCharacters err),
     [(ZapNewDevelopment, None), (Print promptEnter, None), (ReadPassword, None), (Println, None)])"
proof -
  have n: "Suc (Suc 0) = 2" by simp
  show ?thesis
    using assms unfolding n [symmetric]
    by (simp add: interactivePIN_def run_defs promptEnter_def)
qed

lemma prompt_mismatch:
  assumes "terminal_ReadPassword e 2 = Inr raw" and "ParseUint raw = Inr pin"
    and "terminal_ReadPassword e 5 = Inr repeat" and "repeat \<noteq> raw"
  shows "interactivePIN e [(ZapNewDevelopment, None)] = (Inl EntriesNotEqual,
     (ZapNewDevelopment, None) # promptEvents)"
proof -
  have n: "Suc (Suc 0) = 2" "Suc (Suc (Suc (Suc (Suc 0)))) = 5" by simp_all
  show ?thesis
    using assms unfolding n [symmetric]
    by (simp add: interactivePIN_def run_defs promptEnter_def promptRepeat_def promptEvents_def)
qed

lemma collected_terminal:
  assumes "collected e cmd pin pre"
  shows "deviceCalls pre = [] \<and> (\<forall>ev \<in> set pre. isTerminal (fst ev))"
proof (cases "PIN cmd = 0")
  case True
  with assms show ?thesis
    by (auto simp add: collected_prompt promptEvents_def deviceCalls_def)
next
  case False
  with assms show ?thesis by (simp add: collected_flag deviceCalls_def)
qed

text \<open>What a run looks like from outside: either no call reached the device and the run
  failed, or the PIN passed the range check and the first call to the device is
  \<open>getSecurityKey\<close>; every call after it is a call of \<open>setup\<close> with that PIN, up to the
  closing \<open>log.Sync\<close>.\<close>

lemma Run_outcomes:
  assumes "Run e cmd [] = (r, t')"
  obtains
    (refused) err where "r = Some err" "deviceCalls t' = []"
      "\<forall>ev \<in> set t'. fst ev = ZapNewDevelopment \<or> fst ev = LogSync \<or> isTerminal (fst ev)"
  | (accepted) pin pre k evs res where "zap_NewDevelopment e 0 = None" "collected e cmd pin pre"
      "100000 \<le> pin" "pin \<le> 99999999"
      "t' = (ZapNewDevelopment, None) # pre @ [(GetSecurityKey (Card cmd), res)] @ evs @ [(LogSync, None)]"
      "\<forall>ev \<in> set evs. setupCall k (FormatUint pin) (fst ev)"
      "\<forall>err. r = Some err \<longrightarrow> errClass err \<noteq> ValidationError \<and> errClass err \<noteq> OtherError"
  using assms
proof (cases rule: Run_cases)
  case (noLogger err)
  then show ?thesis by (intro refused [of "CouldntInitLogger err"]) (simp_all add: deviceCalls_def)
next
  case (noPIN err pre)
  from interactivePIN_events [OF noPIN(3)] have "\<forall>ev \<in> set pre. isTerminal (fst ev)"
    by auto
  moreover from this have "deviceCalls pre = []"
    by (auto simp add: deviceCalls_def filter_empty_conv elim!: isTerminal.elims)
  ultimately show ?thesis using noPIN
    by (intro refused [of err]) (simp_all add: obs_append deviceCalls_def)
next
  case (outOfRange pin pre)
  with collected_terminal [OF outOfRange(2)] show ?thesis
    by (intro refused [of InvalidPIN]) (simp_all add: deviceCalls_def)
next
  case (noKey pin pre err)
  then show ?thesis
    by (intro accepted [of pin pre "Some err" "[]" 0]) simp_all
next
  case (started pin pre k t1)
  from setup_calls [OF started(6)] obtain evs where
    "t1 = ((ZapNewDevelopment, None) # pre @ [(GetSecurityKey (Card cmd), None)]) @ evs"
    "\<forall>ev \<in> set evs. setupCall k (FormatUint pin) (fst ev)"
    "\<forall>err. r = Some err \<longrightarrow> errClass err \<noteq> ValidationError \<and> errClass err \<noteq> OtherError"
    by auto
  with started show ?thesis
    by (intro accepted [of pin pre None evs k]) simp_all
qed


subsection \<open>Claims about Run\<close>



lemma parse_123456: "ParseUint ''123456'' = Inr 123456"
  by (simp add: ParseUint_def cutoff_def word_le_nat_alt word_less_nat_alt)

lemma parse_0: "ParseUint ''0'' = Inr 0"
  by (simp add: ParseUint_def cutoff_def word_le_nat_alt word_less_nat_alt)

lemma parse_12a456: "ParseUint ''12a456'' = Inl ErrSyntax"
  by (simp add: ParseUint_def cutoff_def word_le_nat_alt word_less_nat_alt)

lemmas sim_run_defs = Run_def interactivePIN_def sim_setup_defs



text \<open>C7: secrets typed at the prompt. Whenever \<open>Run\<close> fails with a validation error
  no call has reached the device. When the secret comes from the prompt and a call does
  reach the device, the terminal was read twice (the third and the sixth call of the
  run), both reads returned the same bytes, and these parse to a PIN in the range. A
  first entry that does not parse fails \<open>Run\<close> with the invalid-characters error, a
  second entry that differs from the first fails it with the error of unequal entries;
  both are validation errors, and no call has reached the device.\<close>
theorem Run_interactive_confirmation:
  "(\<forall>err. fst (Run e cmd []) = Some err \<and> errClass err = ValidationError \<longrightarrow>
       deviceCalls (snd (Run e cmd [])) = [])
   \<and> (PIN cmd = 0 \<and> deviceCalls (snd (Run e cmd [])) \<noteq> [] \<longrightarrow>
        (\<exists>s p. terminal_ReadPassword e 2 = Inr s \<and> terminal_ReadPassword e 5 = Inr s
           \<and> ParseUint s = Inr p \<and> 100000 \<le> p \<and> p \<le> 99999999)
        \<and> take 7 (snd (Run e cmd [])) = (ZapNewDevelopment, None) # promptEvents)
   \<and> (\<forall>s err. zap_NewDevelopment e 0 = None \<and> PIN cmd = 0
         \<and> terminal_ReadPassword e 2 = Inr s \<and> ParseUint s = Inl err \<longrightarrow>
       fst (Run e cmd []) = Some (InvalidCharacters err)
       \<and> errClass (InvalidCharacters err) = ValidationError
       \<and> deviceCalls (snd (Run e cmd [])) = [])
   \<and> (\<forall>s s' p. zap_NewDevelopment e 0 = None \<and> PIN cmd = 0
         \<and> terminal_ReadPassword e 2 = Inr s \<and> ParseUint s = Inr p
         \<and> terminal_ReadPassword e 5 = Inr s' \<and> s' \<noteq> s \<longrightarrow>
       fst (Run e cmd []) = Some EntriesNotEqual
       \<and> errClass EntriesNotEqual = ValidationError
       \<and> deviceCalls (snd (Run e cmd [])) = [])"
proof (intro conjI allI impI)
  fix err
  assume a: "fst (Run e cmd []) = Some err \<and> errClass err = ValidationError"
  obtain r t' where run: "Run e cmd [] = (r, t')" by (cases "Run e cmd []")
  from run show "deviceCalls (snd (Run e cmd [])) = []"
  proof (cases rule: Run_outcomes)
    case (refused err')
    with run show ?thesis by simp
  next
    case (accepted pin pre k evs res)
    with a run show ?thesis by auto
  qed
next
  assume a: "PIN cmd = 0 \<and> deviceCalls (snd (Run e cmd [])) \<noteq> []"
  obtain r t' where run: "Run e cmd [] = (r, t')" by (cases "Run e cmd []")
  from run have "(\<exists>s p. terminal_ReadPassword e 2 = Inr s \<and> terminal_ReadPassword e 5 = Inr s
           \<and> ParseUint s = Inr p \<and> 100000 \<le> p \<and> p \<le> 99999999)
        \<and> take 7 (snd (Run e cmd [])) = (ZapNewDevelopment, None) # promptEvents"
  proof (cases rule: Run_outcomes)
    case (refused err')
    with a run show ?thesis by simp
  next
    case (accepted pin pre k evs res)
    from accepted(2) a have "\<exists>raw. terminal_ReadPassword e 2 = Inr raw \<and> ParseUint raw = Inr pin
       \<and> terminal_ReadPassword e 5 = Inr raw \<and> pre = promptEvents"
      by (simp add: collected_prompt)
    with accepted run show ?thesis
      by (auto simp add: promptEvents_def)
  qed
  then show "\<exists>s p. terminal_ReadPassword e 2 = Inr s \<and> terminal_ReadPassword e 5 = Inr s
           \<and> ParseUint s = Inr p \<and> 100000 \<le> p \<and> p \<le> 99999999"
    and "take 7 (snd (Run e cmd [])) = (ZapNewDevelopment, None) # promptEvents"
    by blast+
next
  fix s err
  assume a: "zap_NewDevelopment e 0 = None \<and> PIN cmd = 0
         \<and> terminal_ReadPassword e 2 = Inr s \<and> ParseUint s = Inl err"
  then have run: "Run e cmd [] = (Some (InvalidCharacters err),
     [(ZapNewDevelopment, None), (Print promptEnter, None), (ReadPassword, None), (Println, None)]
       @ [(LogSync, None)])"
    using Run_noPIN [OF _ _ prompt_invalid, of e cmd s err] by simp
  from run show "fst (Run e cmd []) = Some (InvalidCharacters err)" by simp
  show "errClass (InvalidCharacters err) = ValidationError" by simp
  from run show "deviceCalls (snd (Run e cmd [])) = []" by (simp add: deviceCalls_def)
next
  fix s s' p
  assume a: "zap_NewDevelopment e 0 = None \<and> PIN cmd = 0
         \<and> terminal_ReadPassword e 2 = Inr s \<and> ParseUint s = Inr p
         \<and> terminal_ReadPassword e 5 = Inr s' \<and> s' \<noteq> s"
  then have run: "Run e cmd [] = (Some EntriesNotEqual,
     ((ZapNewDevelopment, None) # promptEvents) @ [(LogSync, None)])"
    using Run_noPIN [OF _ _ prompt_mismatch, of e cmd s p s'] by simp
  from run show "fst (Run e cmd []) = Some EntriesNotEqual" by simp
  show "errClass EntriesNotEqual = ValidationError" by simp
  from run show "deviceCalls (snd (Run e cmd [])) = []"
    by (simp add: deviceCalls_def promptEvents_def)
qed

theorem Run_interactive_confirmation_witness:
  "PIN cmdPrompt = 0
   \<and> deviceCalls (snd (Run (simEnv False ''123456'' ''123456'' never) cmdPrompt [])) \<noteq> []
   \<and> take 7 (snd (Run (simEnv False ''123456'' ''123456'' never) cmdPrompt []))
       = (ZapNewDevelopment, None) # promptEvents
   \<and> zap_NewDevelopment (simEnv False ''12a456'' ''12a456'' never) 0 = None
   \<and> terminal_ReadPassword (simEnv False ''12a456'' ''12a456'' never) 2 = Inr ''12a456''
   \<and> ParseUint ''12a456'' = Inl ErrSyntax
   \<and> fst (Run (simEnv False ''12a456'' ''12a456'' never) cmdPrompt []) = Some (InvalidCharacters ErrSyntax)
   \<and> errClass (InvalidCharacters ErrSyntax) = ValidationError
   \<and> deviceCalls (snd (Run (simEnv False ''12a456'' ''12a456'' never) cmdPrompt [])) = []
   \<and> zap_NewDevelopment (simEnv False ''123456'' ''123457'' never) 0 = None
   \<and> terminal_ReadPassword (simEnv False ''123456'' ''123457'' never) 2 = Inr ''123456''
   \<and> terminal_ReadPassword (simEnv False ''123456'' ''123457'' never) 5 = Inr ''123457''
   \<and> ''123457'' \<noteq> ''123456''
   \<and> fst (Run (simEnv False ''123456'' ''123457'' never) cmdPrompt []) = Some EntriesNotEqual
   \<and> deviceCalls (snd (Run (simEnv False ''123456'' ''123457'' never) cmdPrompt [])) = []"
proof -
  have pin: "PIN cmdPrompt = 0" by (simp add: sim_defs)
  have touched: "deviceCalls (snd (Run (simEnv False ''123456'' ''123456'' never) cmdPrompt [])) \<noteq> []"
    by (simp add: sim_run_defs deviceCalls_def parse_123456)
  have env: "zap_NewDevelopment (simEnv False ''12a456'' ''12a456'' never) 0 = None"
    "terminal_ReadPassword (simEnv False ''12a456'' ''12a456'' never) 2 = Inr ''12a456''"
    "zap_NewDevelopment (simEnv False ''123456'' ''123457'' never) 0 = None"
    "terminal_ReadPassword (simEnv False ''123456'' ''123457'' never) 2 = Inr ''123456''"
    "terminal_ReadPassword (simEnv False ''123456'' ''123457'' never) 5 = Inr ''123457''"
    "''123457'' \<noteq> ''123456''"
    by (simp_all add: sim_defs)
  note ok = Run_interactive_confirmation [of "simEnv False ''123456'' ''123456'' never" cmdPrompt]
  note bad = Run_interactive_confirmation [of "simEnv False ''12a456'' ''12a456'' never" cmdPrompt]
  note neq = Run_interactive_confirmation [of "simEnv False ''123456'' ''123457'' never" cmdPrompt]
  from ok pin touched
  have a: "take 7 (snd (Run (simEnv False ''123456'' ''123456'' never) cmdPrompt []))
       = (ZapNewDevelopment, None) # promptEvents"
    by blast
  from bad pin env(1,2) parse_12a456
  have b: "fst (Run (simEnv False ''12a456'' ''12a456'' never) cmdPrompt []) = Some (InvalidCharacters ErrSyntax)"
    "deviceCalls (snd (Run (simEnv False ''12a456'' ''12a456'' never) cmdPrompt [])) = []"
    by blast+
  from neq pin env(3,4,5,6) parse_123456
  have c: "fst (Run (simEnv False ''123456'' ''123457'' never) cmdPrompt []) = Some EntriesNotEqual"
    "deviceCalls (snd (Run (simEnv False ''123456'' ''123457'' never) cmdPrompt [])) = []"
    by blast+
  show ?thesis using pin touched a b c env parse_12a456 by simp
qed

text \<open>C9: every key the device is asked to generate, in any run of the command and in
  any call of \<open>configureSlot\<close>, for any slot and touch policy, has the algorithm EC
  P-256 and the PIN policy "once"; in \<open>configureSlot\<close> the slot and the touch policy of
  the request are the ones it was called with.\<close>
theorem generated_key_parameters:
  "(\<forall>k mk sl key res.
       (GenerateKey k mk sl key, res) \<in> set (snd (Run e cmd [])) \<longrightarrow>
       Algorithm key = AlgorithmEC256 \<and> PINPolicy key = PINPolicyOnce)
   \<and> (\<forall>k' mk' sl' key res.
       (GenerateKey k' mk' sl' key, res) \<in> set (drop (length t) (snd (configureSlot e k mk sl tp t))) \<longrightarrow>
       Algorithm key = AlgorithmEC256 \<and> PINPolicy key = PINPolicyOnce
       \<and> TouchPolicy key = tp \<and> sl' = sl)"
proof (intro conjI allI impI)
  fix k mk sl key res
  assume ev: "(GenerateKey k mk sl key, res) \<in> set (snd (Run e cmd []))"
  obtain r t' where run: "Run e cmd [] = (r, t')" by (cases "Run e cmd []")
  from run have "Algorithm key = AlgorithmEC256 \<and> PINPolicy key = PINPolicyOnce"
  proof (cases rule: Run_outcomes)
    case (refused err)
    with ev run show ?thesis by force
  next
    case (accepted pin pre k' evs res')
    from collected_terminal [OF accepted(2)] have "(GenerateKey k mk sl key, res) \<notin> set pre"
      by force
    with ev run accepted(5) have "(GenerateKey k mk sl key, res) \<in> set evs"
      by auto
    with accepted(6) have "setupCall k' (FormatUint pin) (GenerateKey k mk sl key)"
      by force
    then show ?thesis by simp
  qed
  then show "Algorithm key = AlgorithmEC256" and "PINPolicy key = PINPolicyOnce"
    by simp_all
next
  fix k' mk' sl' key res
  assume "(GenerateKey k' mk' sl' key, res) \<in> set (drop (length t) (snd (configureSlot e k mk sl tp t)))"
  from configureSlot_key [OF surjective_pairing this]
  show "Algorithm key = AlgorithmEC256" and "PINPolicy key = PINPolicyOnce"
    and "TouchPolicy key = tp" and "sl' = sl"
    by simp_all
qed

theorem generated_key_parameters_witness:
  "(GenerateKey 1 simKey SlotSignature
      \<lparr>Algorithm = AlgorithmEC256, PINPolicy = PINPolicyOnce, TouchPolicy = TouchPolicyAlways\<rparr>, None)
     \<in> set (snd (Run (simEnv False [] [] never) cmdAll []))
   \<and> (GenerateKey 1 simKey SlotCardAuthentication
      \<lparr>Algorithm = AlgorithmEC256, PINPolicy = PINPolicyOnce, TouchPolicy = TouchPolicyNever\<rparr>, None)
     \<in> set (drop (length ([] :: trace))
         (snd (configureSlot (simEnv False [] [] never) 1 simKey SlotCardAuthentication TouchPolicyNever [])))
   \<and> map (\<lambda>(s, p). p) (generated (snd (Run (simEnv False [] [] never) cmdAll [])))
       = [TouchPolicyCached, TouchPolicyAlways, TouchPolicyNever]"
proof -
  have a: "(GenerateKey 1 simKey SlotSignature
      \<lparr>Algorithm = AlgorithmEC256, PINPolicy = PINPolicyOnce, TouchPolicy = TouchPolicyAlways\<rparr>, None)
     \<in> set (snd (Run (simEnv False [] [] never) cmdAll []))"
    by (simp add: sim_run_defs)
  have b: "(GenerateKey 1 simKey SlotCardAuthentication
      \<lparr>Algorithm = AlgorithmEC256, PINPolicy = PINPolicyOnce, TouchPolicy = TouchPolicyNever\<rparr>, None)
     \<in> set (drop (length ([] :: trace))
         (snd (configureSlot (simEnv False [] [] never) 1 simKey SlotCardAuthentication TouchPolicyNever [])))"
    by (simp add: sim_run_defs)
  have c: "map (\<lambda>(s, p). p) (generated (snd (Run (simEnv False [] [] never) cmdAll [])))
       = [TouchPolicyCached, TouchPolicyAlways, TouchPolicyNever]"
    by (simp add: sim_run_defs generated_def)
  note inst = generated_key_parameters [of "simEnv False [] [] never" cmdAll "[]" 1 simKey
      SlotCardAuthentication TouchPolicyNever]
  from inst a b c show ?thesis by simp
qed

text \<open>C8: a PIN flag of 0 is the same as no flag. The command that flag parsing builds
  from the flag value 0 is the command it builds without the flag, so \<open>Run\<close> behaves the
  same on both; with the logger in place it starts by printing the prompt and reading the
  terminal. No run ever sets the PIN or the PUK to the string of a number outside 100000
  to 99999999, so never to 0; and typing a 0 twice at the prompt fails the range check
  with the invalid-PIN error, before any call to the device.\<close>
theorem Run_flag_zero:
  "Run e (cmd\<lparr>PIN := flagPIN (Some 0)\<rparr>) t = Run e (cmd\<lparr>PIN := flagPIN None\<rparr>) t
   \<and> (zap_NewDevelopment e 0 = None \<longrightarrow>
        map fst (take 3 (snd (Run e (cmd\<lparr>PIN := flagPIN (Some 0)\<rparr>) [])))
          = [ZapNewDevelopment, Print promptEnter, ReadPassword])
   \<and> (\<forall>k old new res.
        (SetPIN k old new, res) \<in> set (snd (Run e cmd []))
          \<or> (SetPUK k old new, res) \<in> set (snd (Run e cmd [])) \<longrightarrow>
        (\<exists>p. new = FormatUint p \<and> 100000 \<le> p \<and> p \<le> 99999999))
   \<and> (\<forall>s. zap_NewDevelopment e 0 = None \<and> PIN cmd = 0
        \<and> terminal_ReadPassword e 2 = Inr s \<and> terminal_ReadPassword e 5 = Inr s
        \<and> ParseUint s = Inr 0 \<longrightarrow>
        fst (Run e cmd []) = Some InvalidPIN \<and> deviceCalls (snd (Run e cmd [])) = [])"
proof (intro conjI allI impI)
  show "Run e (cmd\<lparr>PIN := flagPIN (Some 0)\<rparr>) t = Run e (cmd\<lparr>PIN := flagPIN None\<rparr>) t"
    by (simp add: flagPIN_def)
next
  assume zap: "zap_NewDevelopment e 0 = None"
  define cmd0 where "cmd0 = cmd\<lparr>PIN := flagPIN (Some 0)\<rparr>"
  have pin0: "PIN cmd0 = 0" by (simp add: cmd0_def flagPIN_def)
  obtain c tc where ip: "interactivePIN e [(ZapNewDevelopment, None)] = (c, tc)"
    by (cases "interactivePIN e [(ZapNewDevelopment, None)]")
  from ip have start: "\<exists>rest. map fst tc = [ZapNewDevelopment, Print promptEnter, ReadPassword] @ rest"
    by (cases rule: interactivePIN_cases) auto
  obtain r t' where run: "Run e cmd0 [] = (r, t')" by (cases "Run e cmd0 []")
  from run have "\<exists>rest. map fst t' = [ZapNewDevelopment, Print promptEnter, ReadPassword] @ rest"
  proof (cases rule: Run_cases)
    case (noLogger err)
    with zap show ?thesis by simp
  next
    case (noPIN err pre)
    with ip start show ?thesis by auto
  next
    case (outOfRange pin pre)
    with pin0 show ?thesis by (auto simp add: collected_prompt promptEvents_def)
  next
    case (noKey pin pre err)
    with pin0 show ?thesis by (auto simp add: collected_prompt promptEvents_def)
  next
    case (started pin pre k t1)
    from setup_calls [OF started(6)] obtain evs where
      "t1 = ((ZapNewDevelopment, None) # pre @ [(GetSecurityKey (Card cmd0), None)]) @ evs"
      by auto
    with started pin0 show ?thesis by (auto simp add: collected_prompt promptEvents_def)
  qed
  then obtain rest where "map fst t' = [ZapNewDevelopment, Print promptEnter, ReadPassword] @ rest"
    by blast
  then have "take 3 (map fst t') = [ZapNewDevelopment, Print promptEnter, ReadPassword]"
    by simp
  with run show "map fst (take 3 (snd (Run e (cmd\<lparr>PIN := flagPIN (Some 0)\<rparr>) [])))
          = [ZapNewDevelopment, Print promptEnter, ReadPassword]"
    by (simp add: cmd0_def take_map)
next
  fix k old new res
  assume ev: "(SetPIN k old new, res) \<in> set (snd (Run e cmd []))
          \<or> (SetPUK k old new, res) \<in> set (snd (Run e cmd []))"
  obtain r t' where run: "Run e cmd [] = (r, t')" by (cases "Run e cmd []")
  from run show "\<exists>p. new = FormatUint p \<and> 100000 \<le> p \<and> p \<le> 99999999"
  proof (cases rule: Run_outcomes)
    case (refused err)
    with ev run show ?thesis by force
  next
    case (accepted pin pre k' evs res')
    from collected_terminal [OF accepted(2)]
    have "(SetPIN k old new, res) \<notin> set pre" "(SetPUK k old new, res) \<notin> set pre"
      by force+
    with ev run accepted(5) have "(SetPIN k old new, res) \<in> set evs \<or> (SetPUK k old new, res) \<in> set evs"
      by auto
    with accepted(6) have "setupCall k' (FormatUint pin) (SetPIN k old new)
        \<or> setupCall k' (FormatUint pin) (SetPUK k old new)"
      by force
    then have "new = FormatUint pin" by auto
    with accepted(3,4) show ?thesis by blast
  qed
next
  fix s
  assume a: "zap_NewDevelopment e 0 = None \<and> PIN cmd = 0
        \<and> terminal_ReadPassword e 2 = Inr s \<and> terminal_ReadPassword e 5 = Inr s
        \<and> ParseUint s = Inr 0"
  then have cl: "collected e cmd 0 promptEvents"
    by (simp add: collected_prompt)
  have "(0 :: u64) < 100000 \<or> (0 :: u64) > 99999999" by simp
  from Run_outOfRange [OF _ cl this] a
  have run: "Run e cmd [] = (Some InvalidPIN, (ZapNewDevelopment, None) # promptEvents @ [(LogSync, None)])"
    by simp
  from run show "fst (Run e cmd []) = Some InvalidPIN" by simp
  from run show "deviceCalls (snd (Run e cmd [])) = []"
    by (simp add: deviceCalls_def promptEvents_def)
qed

theorem Run_flag_zero_witness:
  "zap_NewDevelopment (simEnv False ''0'' ''0'' never) 0 = None
   \<and> map fst (take 3 (snd (Run (simEnv False ''0'' ''0'' never) (cmdSingle\<lparr>PIN := flagPIN (Some 0)\<rparr>) [])))
          = [ZapNewDevelopment, Print promptEnter, ReadPassword]
   \<and> PIN cmdPrompt = 0
   \<and> terminal_ReadPassword (simEnv False ''0'' ''0'' never) 2 = Inr ''0''
   \<and> terminal_ReadPassword (simEnv False ''0'' ''0'' never) 5 = Inr ''0''
   \<and> ParseUint ''0'' = Inr 0
   \<and> fst (Run (simEnv False ''0'' ''0'' never) cmdPrompt []) = Some InvalidPIN
   \<and> deviceCalls (snd (Run (simEnv False ''0'' ''0'' never) cmdPrompt [])) = []
   \<and> (SetPIN 1 DefaultPIN ''123456'', None) \<in> set (snd (Run (simEnv False [] [] never) cmdSingle []))
   \<and> (\<exists>p. ''123456'' = FormatUint p \<and> 100000 \<le> p \<and> p \<le> 99999999)"
proof -
  have env: "zap_NewDevelopment (simEnv False ''0'' ''0'' never) 0 = None"
    "terminal_ReadPassword (simEnv False ''0'' ''0'' never) 2 = Inr ''0''"
    "terminal_ReadPassword (simEnv False ''0'' ''0'' never) 5 = Inr ''0''"
    "PIN cmdPrompt = 0"
    by (simp_all add: sim_defs)
  have ev: "(SetPIN 1 DefaultPIN ''123456'', None) \<in> set (snd (Run (simEnv False [] [] never) cmdSingle []))"
    by (simp add: sim_run_defs FormatUint_def formatBits.simps)
  note z = Run_flag_zero [of "simEnv False ''0'' ''0'' never" cmdSingle "[]"]
  note p = Run_flag_zero [of "simEnv False ''0'' ''0'' never" cmdPrompt "[]"]
  note s = Run_flag_zero [of "simEnv False [] [] never" cmdSingle "[]"]
  from z env(1) have a: "map fst (take 3 (snd (Run (simEnv False ''0'' ''0'' never) (cmdSingle\<lparr>PIN := flagPIN (Some 0)\<rparr>) [])))
          = [ZapNewDevelopment, Print promptEnter, ReadPassword]"
    by blast
  from p env parse_0 have b: "fst (Run (simEnv False ''0'' ''0'' never) cmdPrompt []) = Some InvalidPIN"
    "deviceCalls (snd (Run (simEnv False ''0'' ''0'' never) cmdPrompt [])) = []"
    by blast+
  from s ev have c: "\<exists>p. ''123456'' = FormatUint p \<and> 100000 \<le> p \<and> p \<le> 99999999"
    by blast
  show ?thesis using env parse_0 a b c ev by simp
qed

end
